theory Spec2Isabelle
  imports Main "HOL-Library.Word" "HOL-Library.AList"
begin

unbundle bit_operations_syntax

section \<open>Runtime values and the library the program calls\<close>

text \<open>
  The program is TypeScript. A Buffer is a list of bytes. File contents, envelopes,
  passwords and property names are \<open>string\<close>. The text handed to \<open>encrypt\<close> is a list
  of code units of a type \<open>'u\<close>, so that the model covers the texts the program seals
  (\<open>'u\<close> is \<open>char\<close>) as well as JavaScript strings as they are, sequences of 16-bit
  code units (\<open>'u\<close> is \<open>code_unit\<close>). The values that \<open>JSON.parse\<close> returns, that the
  zod schemas inspect and that the array of configurations holds are modelled by \<open>json\<close>;
  a number is an \<open>int\<close> (ports and the version tag are the only numbers the program
  handles). A property that may be \<open>undefined\<close> is a \<open>json option\<close>.
\<close>

type_synonym byte = "8 word"
type_synonym buffer = "byte list"
type_synonym code_unit = "16 word"

datatype json =
    JNull
  | JBool bool
  | JNum int
  | JStr string
  | JArr "json list"
  | JObj "(string \<times> json) list"

datatype path_seg = Key string | Index nat

type_synonym issue = "path_seg list"

text \<open>
  Everything the program can throw. \<open>InvalidEncryptedFormat\<close> is
  \<open>new Error('Invalid encrypted format')\<close>, \<open>DecipherError\<close> is whatever
  \<open>createDecipheriv\<close>, \<open>update\<close> or \<open>final\<close> throw, \<open>SyntaxError\<close> is the error
  of \<open>JSON.parse\<close> with its message, \<open>ZodError\<close> carries the paths of the issues
  found, \<open>InvalidPasswordOrCorruptedFile\<close> is
  \<open>new Error('Invalid password or corrupted file')\<close> and \<open>TypeError\<close> is reading a
  property of \<open>null\<close>.
\<close>

datatype error =
    InvalidEncryptedFormat
  | DecipherError
  | SyntaxError string
  | ZodError "issue list"
  | EncryptedFileError
  | InvalidPasswordOrCorruptedFile
  | TypeError

text \<open>
  The functions of the runtime that the program calls and that are not part of the
  repository: node's \<open>crypto\<close> (\<open>pbkdf2Sync\<close>, an AES-CBC cipher and decipher run from
  \<open>createCipheriv\<close>/\<open>createDecipheriv\<close> through \<open>update\<close> and \<open>final\<close>), the
  \<open>base64\<close> and \<open>utf8\<close> encodings of Buffer, and \<open>JSON\<close>. They are parameters of the
  model. The decipher returns \<open>None\<close> when it throws; \<open>JSON_parse\<close> returns the
  message of its SyntaxError on the left.
\<close>

record 'u runtime =
  pbkdf2Sync :: "string \<Rightarrow> buffer \<Rightarrow> nat \<Rightarrow> nat \<Rightarrow> string \<Rightarrow> buffer"
  cipher :: "string \<Rightarrow> buffer \<Rightarrow> buffer \<Rightarrow> buffer \<Rightarrow> buffer"
  decipher :: "string \<Rightarrow> buffer \<Rightarrow> buffer \<Rightarrow> buffer \<Rightarrow> buffer option"
  base64_encode :: "buffer \<Rightarrow> string"
  base64_decode :: "string \<Rightarrow> buffer"
  utf8_encode :: "'u list \<Rightarrow> buffer"
  utf8_decode :: "buffer \<Rightarrow> 'u list"
  JSON_parse :: "string \<Rightarrow> string + json"
  JSON_stringify :: "json \<Rightarrow> string"

section \<open>helpers/crypto.ts\<close>

definition MSG_PREFIX :: string where
  "MSG_PREFIX = ''ENC:''"

definition SALT_LEN :: nat where
  "SALT_LEN = 16"

definition IV_LEN :: nat where
  "IV_LEN = 16"

definition KEY_LEN :: nat where
  "KEY_LEN = 32"

definition ITERATIONS :: nat where
  "ITERATIONS = 100000"

definition ALGO :: string where
  "ALGO = ''sha256''"

definition CIPHER_ALGO :: string where
  "CIPHER_ALGO = ''aes-256-cbc''"

text \<open>\<open>s.startsWith(p)\<close> and \<open>s.split(sep)\<close> for a one-character separator.\<close>

definition startsWith :: "string \<Rightarrow> string \<Rightarrow> bool" where
  "startsWith s p = (take (length p) s = p)"

fun split :: "char \<Rightarrow> string \<Rightarrow> string list" where
  "split sep [] = [[]]"
| "split sep (c # cs) =
     (if c = sep then [] # split sep cs
      else (case split sep cs of
              [] \<Rightarrow> [[c]]
            | p # ps \<Rightarrow> (c # p) # ps))"

text \<open>
  \<open>encrypt\<close>: the two \<open>randomBytes\<close> draws are the arguments \<open>salt\<close> and \<open>iv\<close>.
  \<open>cipher.update(data, 'utf8', 'base64') + cipher.final('base64')\<close> is the base64
  text of the whole ciphertext of the utf8 bytes of \<open>data\<close>: the cipher object keeps
  the bytes of an incomplete base64 group between the two calls.

  \<open>decrypt\<close>: the two checks that throw \<open>Invalid encrypted format\<close>, then
  \<open>decipher.update(encryptedData, 'base64', 'utf8') + decipher.final('utf8')\<close>, which is
  the utf8 text of the whole plaintext; whatever \<open>createDecipheriv\<close>, \<open>update\<close> or
  \<open>final\<close> throw leaves \<open>decrypt\<close> as it is. Decoding base64 never throws.
\<close>

definition encrypt :: "'u runtime \<Rightarrow> buffer \<Rightarrow> buffer \<Rightarrow> 'u list \<Rightarrow> string \<Rightarrow> string" where
  "encrypt rt salt iv data password =
     (let key = pbkdf2Sync rt password salt ITERATIONS KEY_LEN ALGO;
          encrypted = base64_encode rt (cipher rt CIPHER_ALGO key iv (utf8_encode rt data))
      in MSG_PREFIX @ base64_encode rt salt @ '':'' @ base64_encode rt iv @ '':'' @ encrypted)"

definition decrypt :: "'u runtime \<Rightarrow> string \<Rightarrow> string \<Rightarrow> error + 'u list" where
  "decrypt rt encryptedString password =
     (if \<not> startsWith encryptedString MSG_PREFIX then Inl InvalidEncryptedFormat
      else
        (case split CHR '':'' (drop (length MSG_PREFIX) encryptedString) of
           [saltB64, ivB64, encryptedData] \<Rightarrow>
             (let salt = base64_decode rt saltB64;
                  iv = base64_decode rt ivB64;
                  key = pbkdf2Sync rt password salt ITERATIONS KEY_LEN ALGO
              in (case decipher rt CIPHER_ALGO key iv (base64_decode rt encryptedData) of
                    None \<Rightarrow> Inl DecipherError
                  | Some decrypted \<Rightarrow> Inr (utf8_decode rt decrypted)))
         | _ \<Rightarrow> Inl InvalidEncryptedFormat))"

section \<open>interfaces/index.ts\<close>

datatype DbType = postgres

text \<open>
  \<open>DbConfig\<close> is the type inferred from \<open>DbConfigSchema\<close>. The fields \<open>id\<close> and
  \<open>group\<close> carry a prime because HOL has constants of these names.
\<close>

record DbConfig =
  id' :: string
  name :: string
  type :: DbType
  host :: string
  port :: int
  user :: string
  password :: string
  database :: string
  ssl :: bool
  verbose :: bool
  group' :: "string option"

text \<open>
  The zod schemas, applied to a property that may be undefined (\<open>None\<close>). A schema
  returns \<open>None\<close> where zod reports an issue.
\<close>

definition z_string :: "json option \<Rightarrow> string option" where
  "z_string v = (case v of Some (JStr s) \<Rightarrow> Some s | _ \<Rightarrow> None)"

definition z_number :: "json option \<Rightarrow> int option" where
  "z_number v = (case v of Some (JNum n) \<Rightarrow> Some n | _ \<Rightarrow> None)"

definition z_boolean :: "json option \<Rightarrow> bool option" where
  "z_boolean v = (case v of Some (JBool b) \<Rightarrow> Some b | _ \<Rightarrow> None)"

definition DbTypeSchema :: "json option \<Rightarrow> DbType option" where
  "DbTypeSchema v =
     (case v of
        Some (JStr s) \<Rightarrow> if s = ''postgres'' then Some postgres else None
      | _ \<Rightarrow> None)"

definition z_default :: "(json option \<Rightarrow> 'a option) \<Rightarrow> 'a \<Rightarrow> json option \<Rightarrow> 'a option" where
  "z_default schema d v = (case v of None \<Rightarrow> Some d | Some _ \<Rightarrow> schema v)"

definition z_optional :: "(json option \<Rightarrow> 'a option) \<Rightarrow> json option \<Rightarrow> 'a option option" where
  "z_optional schema v = (case v of None \<Rightarrow> Some None | Some _ \<Rightarrow> map_option Some (schema v))"

definition issue_at :: "string \<Rightarrow> 'a option \<Rightarrow> issue list" where
  "issue_at k r = (case r of None \<Rightarrow> [[Key k]] | Some _ \<Rightarrow> [])"

text \<open>
  \<open>DbConfigSchema.parse\<close>: zod checks every property of the object, collects the
  issues, and throws a ZodError when there is one; unknown keys are dropped. A value
  that is not an object is one issue at the root.
\<close>

definition DbConfigSchema_issues :: "(string \<rightharpoonup> json) \<Rightarrow> issue list" where
  "DbConfigSchema_issues m =
     issue_at ''id'' (z_string (m ''id''))
     @ issue_at ''name'' (z_string (m ''name''))
     @ issue_at ''type'' (DbTypeSchema (m ''type''))
     @ issue_at ''host'' (z_string (m ''host''))
     @ issue_at ''port'' (z_number (m ''port''))
     @ issue_at ''user'' (z_string (m ''user''))
     @ issue_at ''password'' (z_default z_string [] (m ''password''))
     @ issue_at ''database'' (z_string (m ''database''))
     @ issue_at ''ssl'' (z_default z_boolean False (m ''ssl''))
     @ issue_at ''verbose'' (z_default z_boolean False (m ''verbose''))
     @ issue_at ''group'' (z_optional z_string (m ''group''))"

definition DbConfigSchema_parse :: "json \<Rightarrow> error + DbConfig" where
  "DbConfigSchema_parse v =
     (case v of
        JObj kvs \<Rightarrow>
          (let m = map_of kvs; issues = DbConfigSchema_issues m
           in if issues \<noteq> [] then Inl (ZodError issues)
              else Inr \<lparr> id' = the (z_string (m ''id'')),
                         name = the (z_string (m ''name'')),
                         type = the (DbTypeSchema (m ''type'')),
                         host = the (z_string (m ''host'')),
                         port = the (z_number (m ''port'')),
                         user = the (z_string (m ''user'')),
                         password = the (z_default z_string [] (m ''password'')),
                         database = the (z_string (m ''database'')),
                         ssl = the (z_default z_boolean False (m ''ssl'')),
                         verbose = the (z_default z_boolean False (m ''verbose'')),
                         group' = the (z_optional z_string (m ''group'')) \<rparr>)
      | _ \<Rightarrow> Inl (ZodError [[]]))"

text \<open>
  \<open>ConfigFileSchema = z.array(DbConfigSchema)\<close>: every element is checked, the issues
  of element \<open>i\<close> are reported under the index \<open>i\<close>, and one issue fails the whole array.
\<close>

fun array_items :: "nat \<Rightarrow> json list \<Rightarrow> issue list \<times> DbConfig list" where
  "array_items i [] = ([], [])"
| "array_items i (v # vs) =
     (let (issues, cs) = array_items (Suc i) vs
      in (case DbConfigSchema_parse v of
            Inr c \<Rightarrow> (issues, c # cs)
          | Inl (ZodError ps) \<Rightarrow> (map ((#) (Index i)) ps @ issues, cs)
          | Inl _ \<Rightarrow> ([Index i] # issues, cs)))"

definition ConfigFileSchema_parse :: "json \<Rightarrow> error + DbConfig list" where
  "ConfigFileSchema_parse v =
     (case v of
        JArr items \<Rightarrow>
          (let (issues, cs) = array_items 0 items
           in if issues \<noteq> [] then Inl (ZodError issues) else Inr cs)
      | _ \<Rightarrow> Inl (ZodError [[]]))"

text \<open>
  What \<open>JSON.stringify\<close> sees of a configuration object: its properties, \<open>group\<close> only
  when it is defined.
\<close>

definition DbConfig_json :: "DbConfig \<Rightarrow> json" where
  "DbConfig_json c =
     JObj ([(''id'', JStr (id' c)),
            (''name'', JStr (name c)),
            (''type'', (case type c of postgres \<Rightarrow> JStr ''postgres'')),
            (''host'', JStr (host c)),
            (''port'', JNum (port c)),
            (''user'', JStr (user c)),
            (''password'', JStr (password c)),
            (''database'', JStr (database c)),
            (''ssl'', JBool (ssl c)),
            (''verbose'', JBool (verbose c))]
           @ (case group' c of None \<Rightarrow> [] | Some g \<Rightarrow> [(''group'', JStr g)]))"

text \<open>
  JavaScript's property read \<open>v.k\<close> and truthiness. \<open>get_prop\<close> is the read of a value
  that may be \<open>null\<close>, where it throws; \<open>js_prop\<close> is the read of a value that is not
  \<open>null\<close>, as the elements of the array of configurations are. \<open>string_of\<close> reads
  a property that the static type or the schema makes a string.
\<close>

definition js_prop :: "json \<Rightarrow> string \<Rightarrow> json option" where
  "js_prop v k = (case v of JObj kvs \<Rightarrow> map_of kvs k | _ \<Rightarrow> None)"

definition string_of :: "json option \<Rightarrow> string" where
  "string_of v = (case v of Some (JStr s) \<Rightarrow> s | _ \<Rightarrow> [])"

definition get_prop :: "json \<Rightarrow> string \<Rightarrow> error + json option" where
  "get_prop v k =
     (case v of
        JNull \<Rightarrow> Inl TypeError
      | JObj kvs \<Rightarrow> Inr (map_of kvs k)
      | _ \<Rightarrow> Inr None)"

definition truthy :: "json \<Rightarrow> bool" where
  "truthy v =
     (case v of
        JNull \<Rightarrow> False
      | JBool b \<Rightarrow> b
      | JNum n \<Rightarrow> n \<noteq> 0
      | JStr s \<Rightarrow> s \<noteq> []
      | _ \<Rightarrow> True)"

definition truthy_prop :: "json option \<Rightarrow> bool" where
  "truthy_prop v = (case v of None \<Rightarrow> False | Some x \<Rightarrow> truthy x)"

text \<open>
  The object \<open>{...c, password: p}\<close>: the properties of \<open>c\<close> in their order, with
  \<open>password\<close> set to \<open>p\<close> where it stands, or added last. The assignment
  \<open>c.password = p\<close> does the same to the object \<open>c\<close> itself.
\<close>

definition with_password :: "json \<Rightarrow> string \<Rightarrow> json" where
  "with_password c p =
     JObj (AList.update ''password'' (JStr p) (case c of JObj kvs \<Rightarrow> kvs | _ \<Rightarrow> []))"

definition assign_password :: "json \<Rightarrow> string \<Rightarrow> json" where
  "assign_password c p =
     (case c of JObj kvs \<Rightarrow> JObj (AList.update ''password'' (JStr p) kvs) | _ \<Rightarrow> c)"

text \<open>An optional string argument used as a condition: \<open>undefined\<close> and \<open>''\<close> are falsy.\<close>

definition given :: "string option \<Rightarrow> bool" where
  "given p = (case p of None \<Rightarrow> False | Some s \<Rightarrow> s \<noteq> [])"

section \<open>The state the program works on\<close>

text \<open>
  \<open>configs\<close> is the array \<open>ConfigManager.configs\<close> with the objects it holds as they
  are (the caller's object after \<open>addConfig\<close>, an object of the schema after a load or
  an import), \<open>configFile\<close> the content of the
  metadata file at \<open>configPath\<close> (\<open>None\<close> when the file does not exist), \<open>secrets\<close> the
  entries that \<open>Bun.secrets\<close> holds for the service, by account. \<open>effects\<close> lists the
  calls issued so far on the keychain helper and on the metadata file, oldest first.
  Log output is not part of the state.

  An \<open>env\<close> says how the host behaves during one operation: \<open>secrets_ok\<close> is false when
  \<open>Bun.secrets\<close> is missing or its call throws, \<open>disk_ok\<close> is false when
  \<open>writeFileSync\<close> throws.
\<close>

datatype effect =
    WriteFile string
  | SetPassword string string
  | GetPassword string
  | DeletePassword string

record world =
  configs :: "json list"
  configFile :: "string option"
  secrets :: "string \<rightharpoonup> string"
  effects :: "effect list"

record env =
  secrets_ok :: bool
  disk_ok :: bool

section \<open>helpers/keychain.ts\<close>

definition setPassword :: "env \<Rightarrow> string \<Rightarrow> string \<Rightarrow> world \<Rightarrow> bool \<times> world" where
  "setPassword e account pw w =
     (let w1 = w\<lparr>effects := effects w @ [SetPassword account pw]\<rparr>
      in if secrets_ok e then (True, w1\<lparr>secrets := (secrets w1)(account \<mapsto> pw)\<rparr>)
         else (False, w1))"

text \<open>\<open>return secret || null\<close>: an empty secret reads as no secret.\<close>

definition getPassword :: "env \<Rightarrow> string \<Rightarrow> world \<Rightarrow> string option \<times> world" where
  "getPassword e account w =
     (let w1 = w\<lparr>effects := effects w @ [GetPassword account]\<rparr>
      in if secrets_ok e
         then (case secrets w1 account of
                 None \<Rightarrow> (None, w1)
               | Some secret \<Rightarrow> (if secret \<noteq> [] then Some secret else None, w1))
         else (None, w1))"

definition deletePassword :: "env \<Rightarrow> string \<Rightarrow> world \<Rightarrow> bool \<times> world" where
  "deletePassword e account w =
     (let w1 = w\<lparr>effects := effects w @ [DeletePassword account]\<rparr>
      in if secrets_ok e
         then (account \<in> dom (secrets w1), w1\<lparr>secrets := (secrets w1)(account := None)\<rparr>)
         else (False, w1))"

section \<open>ConfigManager\<close>

text \<open>
  \<open>loadConfigRaw\<close>, run by the constructor on an empty \<open>configs\<close>: a missing file leaves
  it empty, a file that does not parse or does not fit the schema is logged and gives
  the empty array. Reading a file that exists is taken to succeed. The objects that
  \<open>ConfigFileSchema.parse\<close> returns have the properties of the schema and no other.
\<close>

definition loadConfigRaw :: "'u runtime \<Rightarrow> world \<Rightarrow> world" where
  "loadConfigRaw rt w =
     (case configFile w of
        None \<Rightarrow> w
      | Some fileContent \<Rightarrow>
          (case JSON_parse rt fileContent of
             Inl _ \<Rightarrow> w\<lparr>configs := []\<rparr>
           | Inr parsed \<Rightarrow>
               (case ConfigFileSchema_parse parsed of
                  Inl _ \<Rightarrow> w\<lparr>configs := []\<rparr>
                | Inr cs \<Rightarrow> w\<lparr>configs := map DbConfig_json cs\<rparr>)))"

definition new_ConfigManager :: "'u runtime \<Rightarrow> world \<Rightarrow> world" where
  "new_ConfigManager rt w = loadConfigRaw rt (w\<lparr>configs := []\<rparr>)"

text \<open>
  The loop of \<open>loadPasswordsFromKeychain\<close> over the configurations still to visit:
  \<open>getPassword(config.id)\<close>, then \<open>config.password = password\<close> when a secret came
  back.
\<close>

fun loadPasswords_loop :: "env \<Rightarrow> json list \<Rightarrow> world \<Rightarrow> json list \<times> world" where
  "loadPasswords_loop e [] w = ([], w)"
| "loadPasswords_loop e (config # rest) w =
     (let (pw, w1) = getPassword e (string_of (js_prop config ''id'')) w;
          config1 = (case pw of Some p \<Rightarrow> assign_password config p | None \<Rightarrow> config);
          (rest1, w2) = loadPasswords_loop e rest w1
      in (config1 # rest1, w2))"

definition loadPasswordsFromKeychain :: "env \<Rightarrow> world \<Rightarrow> world" where
  "loadPasswordsFromKeychain e w =
     (let (cs, w1) = loadPasswords_loop e (configs w) w in w1\<lparr>configs := cs\<rparr>)"

definition init :: "env \<Rightarrow> world \<Rightarrow> world" where
  "init e w = loadPasswordsFromKeychain e w"

definition saveConfigRaw :: "'u runtime \<Rightarrow> env \<Rightarrow> world \<Rightarrow> world" where
  "saveConfigRaw rt e w =
     (let configsWithoutPasswords = map (\<lambda>c. with_password c []) (configs w);
          content = JSON_stringify rt (JArr configsWithoutPasswords);
          w1 = w\<lparr>effects := effects w @ [WriteFile content]\<rparr>
      in if disk_ok e then w1\<lparr>configFile := Some content\<rparr> else w1)"

definition getConfigs :: "world \<Rightarrow> json list" where
  "getConfigs w = configs w"

definition getConfig :: "string \<Rightarrow> world \<Rightarrow> json option" where
  "getConfig i w = find (\<lambda>c. js_prop c ''id'' = Some (JStr i)) (configs w)"

text \<open>
  \<open>addConfig\<close> receives a value whose shape is only known after \<open>DbConfigSchema.parse\<close>.
  The result of the parse is not used: the properties are read from the caller's object,
  and the caller's object is what is pushed. The result says what was thrown, if
  anything, and gives the state the call leaves behind.
\<close>

definition addConfig :: "'u runtime \<Rightarrow> env \<Rightarrow> json \<Rightarrow> world \<Rightarrow> error option \<times> world" where
  "addConfig rt e config w =
     (case DbConfigSchema_parse config of
        Inl err \<Rightarrow> (Some err, w)
      | Inr _ \<Rightarrow>
          (let w1 = (if truthy_prop (js_prop config ''password'')
                     then snd (setPassword e (string_of (js_prop config ''id''))
                                 (string_of (js_prop config ''password'')) w)
                     else w);
               w2 = w1\<lparr>configs := configs w1 @ [config]\<rparr>
           in (None, saveConfigRaw rt e w2)))"

definition removeConfig :: "'u runtime \<Rightarrow> env \<Rightarrow> string \<Rightarrow> world \<Rightarrow> world" where
  "removeConfig rt e i w =
     (let w1 = w\<lparr>configs := filter (\<lambda>c. js_prop c ''id'' \<noteq> Some (JStr i)) (configs w)\<rparr>;
          w2 = saveConfigRaw rt e w1
      in snd (deletePassword e i w2))"

fun findIndex :: "('a \<Rightarrow> bool) \<Rightarrow> 'a list \<Rightarrow> nat option" where
  "findIndex P [] = None"
| "findIndex P (x # xs) = (if P x then Some 0 else map_option Suc (findIndex P xs))"

text \<open>
  \<open>updateConfig\<close> does not validate: its argument is taken at its static type
  \<open>DbConfig\<close>, and \<open>DbConfig_json config\<close> is the object the caller passes.
\<close>

definition updateConfig :: "'u runtime \<Rightarrow> env \<Rightarrow> DbConfig \<Rightarrow> world \<Rightarrow> world" where
  "updateConfig rt e config w =
     (case findIndex (\<lambda>c. js_prop c ''id'' = Some (JStr (id' config))) (configs w) of
        None \<Rightarrow> w
      | Some index \<Rightarrow>
          (let w1 = (if password config \<noteq> []
                     then snd (setPassword e (id' config) (password config) w) else w);
               w2 = w1\<lparr>configs := (configs w1)[index := DbConfig_json config]\<rparr>
           in saveConfigRaw rt e w2))"

text \<open>
  \<open>exportToFile\<close>: \<open>now\<close> is \<open>new Date().toISOString()\<close>, \<open>salt\<close> and \<open>iv\<close> are the
  draws of \<open>encrypt\<close>. The result is the content handed to \<open>writeFileSync\<close> for
  \<open>filePath\<close>, a file outside the state modelled here.
\<close>

definition exportData :: "string \<Rightarrow> json list \<Rightarrow> json" where
  "exportData now configsToExport =
     JObj [(''version'', JNum 1),
           (''exportedAt'', JStr now),
           (''connections'', JArr configsToExport)]"

definition exportToFile ::
  "char runtime \<Rightarrow> string \<Rightarrow> buffer \<Rightarrow> buffer \<Rightarrow> string option \<Rightarrow> bool \<Rightarrow> world \<Rightarrow> string" where
  "exportToFile rt now salt iv encryptionPassword includePlainPasswords w =
     (let configsToExport =
            (if \<not> given encryptionPassword \<and> \<not> includePlainPasswords
             then map (\<lambda>c. with_password c []) (configs w)
             else configs w);
          jsonContent = JSON_stringify rt (exportData now configsToExport)
      in (case encryptionPassword of
            None \<Rightarrow> jsonContent
          | Some pw \<Rightarrow> if pw \<noteq> [] then encrypt rt salt iv jsonContent pw else jsonContent))"

text \<open>
  \<open>importFromFile\<close> in its parts: the \<open>try\<close>/\<open>catch\<close> that turns the file content
  into a parsed value, the expression \<open>parsed.connections || parsed\<close>, the loop over
  the validated profiles, and what follows the validation (the loop, the save when
  something was imported, the count). \<open>fileContent\<close> is what \<open>readFileSync\<close> returned.
  The loop pushes the objects that \<open>ConfigFileSchema.parse\<close> returned.
\<close>

definition parse_fileContent :: "char runtime \<Rightarrow> string \<Rightarrow> string option \<Rightarrow> error + json" where
  "parse_fileContent rt fileContent decryptionPassword =
     (case JSON_parse rt fileContent of
        Inr parsed \<Rightarrow> Inr parsed
      | Inl msg \<Rightarrow>
          (case decryptionPassword of
             None \<Rightarrow>
               if startsWith fileContent ''ENC:'' then Inl EncryptedFileError
               else Inl (SyntaxError msg)
           | Some pw \<Rightarrow>
               if pw \<noteq> [] then
                 (case decrypt rt fileContent pw of
                    Inl _ \<Rightarrow> Inl InvalidPasswordOrCorruptedFile
                  | Inr decrypted \<Rightarrow>
                      (case JSON_parse rt decrypted of
                         Inl _ \<Rightarrow> Inl InvalidPasswordOrCorruptedFile
                       | Inr parsed \<Rightarrow> Inr parsed))
               else if startsWith fileContent ''ENC:'' then Inl EncryptedFileError
               else Inl (SyntaxError msg)))"

definition connections_of :: "json \<Rightarrow> error + json" where
  "connections_of parsed =
     (case get_prop parsed ''connections'' of
        Inl err \<Rightarrow> Inl err
      | Inr None \<Rightarrow> Inr parsed
      | Inr (Some v) \<Rightarrow> if truthy v then Inr v else Inr parsed)"

fun import_loop :: "env \<Rightarrow> DbConfig list \<Rightarrow> nat \<Rightarrow> world \<Rightarrow> nat \<times> world" where
  "import_loop e [] imported w = (imported, w)"
| "import_loop e (config # rest) imported w =
     (case find (\<lambda>c. js_prop c ''id'' = Some (JStr (id' config))) (configs w) of
        Some existing \<Rightarrow> import_loop e rest imported w
      | None \<Rightarrow>
          (let w1 = (if password config \<noteq> []
                     then snd (setPassword e (id' config) (password config) w) else w);
               w2 = w1\<lparr>configs := configs w1 @ [DbConfig_json config]\<rparr>
           in import_loop e rest (imported + 1) w2))"

definition import_validated ::
  "'u runtime \<Rightarrow> env \<Rightarrow> DbConfig list \<Rightarrow> world \<Rightarrow> (error + nat) \<times> world" where
  "import_validated rt e validated w =
     (let (imported, w1) = import_loop e validated 0 w;
          w2 = (if imported > 0 then saveConfigRaw rt e w1 else w1)
      in (Inr imported, w2))"

definition importFromFile ::
  "char runtime \<Rightarrow> env \<Rightarrow> string \<Rightarrow> string option \<Rightarrow> world \<Rightarrow> (error + nat) \<times> world" where
  "importFromFile rt e fileContent decryptionPassword w =
     (case parse_fileContent rt fileContent decryptionPassword of
        Inl err \<Rightarrow> (Inl err, w)
      | Inr parsed \<Rightarrow>
          (case connections_of parsed of
             Inl err \<Rightarrow> (Inl err, w)
           | Inr connections \<Rightarrow>
               (case ConfigFileSchema_parse connections of
                  Inl err \<Rightarrow> (Inl err, w)
                | Inr validated \<Rightarrow> import_validated rt e validated w)))"

section \<open>Sequences of operations and restarts\<close>

text \<open>
  A caller's sequence of \<open>addConfig\<close>, \<open>updateConfig\<close> and \<open>removeConfig\<close> calls, each
  under the host behaviour of its moment. A thrown error of \<open>addConfig\<close> leaves the
  caller with the state of that call.
\<close>

datatype op = Add json | Update DbConfig | Remove string

fun step :: "'u runtime \<Rightarrow> env \<Rightarrow> op \<Rightarrow> world \<Rightarrow> world" where
  "step rt e (Add config) w = snd (addConfig rt e config w)"
| "step rt e (Update config) w = updateConfig rt e config w"
| "step rt e (Remove i) w = removeConfig rt e i w"

fun run :: "'u runtime \<Rightarrow> (env \<times> op) list \<Rightarrow> world \<Rightarrow> world" where
  "run rt [] w = w"
| "run rt ((e, x) # ops) w = run rt ops (step rt e x w)"

text \<open>
  The next start of the process: the array in memory is gone, the metadata file and the
  keychain remain; the constructor runs, then \<open>init\<close>.
\<close>

definition restart :: "'u runtime \<Rightarrow> env \<Rightarrow> world \<Rightarrow> world" where
  "restart rt e w = init e (new_ConfigManager rt w)"

section \<open>Properties referred to by the theorems\<close>

text \<open>
  A text written to the metadata file is free of passwords when it is the serialisation
  of an array each of whose entries has the property \<open>password\<close> equal to \<open>''\<close>.
\<close>

definition passwordless :: "'u runtime \<Rightarrow> string \<Rightarrow> bool" where
  "passwordless rt content \<longleftrightarrow>
     (\<exists>entries. content = JSON_stringify rt (JArr entries)
        \<and> (\<forall>entry \<in> set entries. get_prop entry ''password'' = Inr (Some (JStr []))))"

text \<open>
  The value that \<open>saveConfigRaw\<close> serialises for an array of configurations, and its
  text.
\<close>

definition metadata_json :: "json list \<Rightarrow> json" where
  "metadata_json cs = JArr (map (\<lambda>c. with_password c []) cs)"

definition metadata_content :: "'u runtime \<Rightarrow> json list \<Rightarrow> string" where
  "metadata_content rt cs = JSON_stringify rt (metadata_json cs)"

text \<open>
  A state is clean when every text written to the metadata file so far, and the text the
  file holds, is free of passwords.
\<close>

definition clean :: "'u runtime \<Rightarrow> world \<Rightarrow> bool" where
  "clean rt w \<longleftrightarrow>
     (\<forall>content. WriteFile content \<in> set (effects w) \<longrightarrow> passwordless rt content)
     \<and> (\<forall>content. configFile w = Some content \<longrightarrow> passwordless rt content)"

text \<open>\<open>JSON.parse\<close> gives back the value whose serialisation it reads.\<close>

definition json_roundtrip :: "'u runtime \<Rightarrow> json \<Rightarrow> bool" where
  "json_roundtrip rt doc \<longleftrightarrow> JSON_parse rt (JSON_stringify rt doc) = Inr doc"

text \<open>
  The array holds profiles when each of its objects passes \<open>DbConfigSchema\<close>; \<open>cs\<close>
  are then the profiles as the schema reads them, in order. The arrays that the
  constructor, \<open>addConfig\<close>, \<open>updateConfig\<close> and \<open>removeConfig\<close> build are of this
  kind.
\<close>

definition holds_profiles :: "json list \<Rightarrow> DbConfig list \<Rightarrow> bool" where
  "holds_profiles objects cs \<longleftrightarrow> ConfigFileSchema_parse (JArr objects) = Inr cs"

text \<open>The ids of the objects of the array, in order.\<close>

definition ids :: "json list \<Rightarrow> string list" where
  "ids objects =
     concat (map (\<lambda>c. case js_prop c ''id'' of Some (JStr i) \<Rightarrow> [i] | _ \<Rightarrow> []) objects)"

text \<open>
  What \<open>loadPasswordsFromKeychain\<close> makes of one configuration, given the keychain
  entries: the password becomes the non-empty secret stored under the id, if the
  keychain answers.
\<close>

definition hydrated :: "env \<Rightarrow> (string \<rightharpoonup> string) \<Rightarrow> json \<Rightarrow> json" where
  "hydrated e m c =
     (if secrets_ok e
      then (case m (string_of (js_prop c ''id'')) of
              None \<Rightarrow> c
            | Some secret \<Rightarrow> if secret \<noteq> [] then assign_password c secret else c)
      else c)"

text \<open>
  What the crypto functions of the runtime guarantee: base64 text decodes to the bytes
  it encodes and has no colon, \<open>pbkdf2Sync\<close> returns a key of the length asked for, and
  the decipher undoes the cipher under the same key and IV of the sizes of AES-256-CBC.
\<close>

definition crypto_sound :: "'u runtime \<Rightarrow> bool" where
  "crypto_sound rt \<longleftrightarrow>
     (\<forall>bs. base64_decode rt (base64_encode rt bs) = bs)
     \<and> (\<forall>bs. CHR '':'' \<notin> set (base64_encode rt bs))
     \<and> (\<forall>pw salt. length (pbkdf2Sync rt pw salt ITERATIONS KEY_LEN ALGO) = KEY_LEN)
     \<and> (\<forall>key iv bs. length key = KEY_LEN \<and> length iv = IV_LEN
           \<longrightarrow> decipher rt CIPHER_ALGO key iv (cipher rt CIPHER_ALGO key iv bs) = Some bs)"

text \<open>The \<open>setPassword\<close> calls that seed the keychain for a list of added profiles.\<close>

definition seeded :: "DbConfig list \<Rightarrow> effect list" where
  "seeded added =
     map (\<lambda>c. SetPassword (id' c) (password c)) (filter (\<lambda>c. password c \<noteq> []) added)"

text \<open>
  The profiles of an import that are new: the id is not among the ids \<open>seen\<close> (those of
  the store, then also those of the profiles taken earlier from the same file).
\<close>

fun new_profiles :: "string list \<Rightarrow> DbConfig list \<Rightarrow> DbConfig list" where
  "new_profiles seen [] = []"
| "new_profiles seen (c # cs) =
     (if id' c \<in> set seen then new_profiles seen cs
      else c # new_profiles (seen @ [id' c]) cs)"

section \<open>A small runtime to run the model on concrete inputs\<close>

text \<open>
  The theorems below hold for every runtime with the stated guarantees. To run the
  program on concrete inputs a runtime is needed; this one is small enough to compute
  with. The key is derived from the bytes of the password and the salt, the cipher shifts
  every byte by an amount that depends on key and IV and appends a check byte that the
  decipher verifies, a byte is encoded by two letters of \<open>A\<close> to \<open>P\<close>, a character by its
  code, and \<open>JSON\<close> is a finite table of texts and the values they stand for.
\<close>

definition demo_pbkdf2Sync :: "string \<Rightarrow> buffer \<Rightarrow> nat \<Rightarrow> nat \<Rightarrow> string \<Rightarrow> buffer" where
  "demo_pbkdf2Sync pw salt iterations keylen digest =
     replicate keylen (sum_list (map (\<lambda>c. word_of_nat (of_char c)) pw) + sum_list salt)"

definition demo_shift :: "buffer \<Rightarrow> buffer \<Rightarrow> byte" where
  "demo_shift key iv = (case key of [] \<Rightarrow> 0 | k # _ \<Rightarrow> k) + sum_list iv"

definition demo_cipher :: "string \<Rightarrow> buffer \<Rightarrow> buffer \<Rightarrow> buffer \<Rightarrow> buffer" where
  "demo_cipher algo key iv bs = map (\<lambda>b. b + demo_shift key iv) (bs @ [42])"

definition demo_decipher :: "string \<Rightarrow> buffer \<Rightarrow> buffer \<Rightarrow> buffer \<Rightarrow> buffer option" where
  "demo_decipher algo key iv bs =
     (let plain = map (\<lambda>b. b - demo_shift key iv) bs
      in if plain \<noteq> [] \<and> last plain = 42 then Some (butlast plain) else None)"

definition demo_base64_encode :: "buffer \<Rightarrow> string" where
  "demo_base64_encode bs =
     concat (map (\<lambda>b. [char_of (65 + unat b div 16), char_of (65 + unat b mod 16)]) bs)"

fun demo_base64_decode :: "string \<Rightarrow> buffer" where
  "demo_base64_decode (c1 # c2 # cs) =
     word_of_nat ((of_char c1 - 65) * 16 + (of_char c2 - 65)) # demo_base64_decode cs"
| "demo_base64_decode _ = []"

definition demo_utf8_encode :: "string \<Rightarrow> buffer" where
  "demo_utf8_encode s = map (\<lambda>c. word_of_nat (of_char c)) s"

definition demo_utf8_decode :: "buffer \<Rightarrow> string" where
  "demo_utf8_decode bs = map (\<lambda>b. char_of (unat b)) bs"

definition demo_JSON_parse :: "(string \<times> json) list \<Rightarrow> string \<Rightarrow> string + json" where
  "demo_JSON_parse table s =
     (case map_of table s of None \<Rightarrow> Inl ''Unexpected token'' | Some v \<Rightarrow> Inr v)"

definition demo_JSON_stringify :: "(string \<times> json) list \<Rightarrow> json \<Rightarrow> string" where
  "demo_JSON_stringify table v =
     (case find (\<lambda>(s, v'). v' = v) table of None \<Rightarrow> ''null'' | Some (s, v') \<Rightarrow> s)"

definition demo_runtime :: "(string \<times> json) list \<Rightarrow> char runtime" where
  "demo_runtime table =
     \<lparr> pbkdf2Sync = demo_pbkdf2Sync,
       cipher = demo_cipher,
       decipher = demo_decipher,
       base64_encode = demo_base64_encode,
       base64_decode = demo_base64_decode,
       utf8_encode = demo_utf8_encode,
       utf8_decode = demo_utf8_decode,
       JSON_parse = demo_JSON_parse table,
       JSON_stringify = demo_JSON_stringify table \<rparr>"

section \<open>The same runtime on JavaScript strings\<close>

text \<open>
  A JavaScript string is a sequence of 16-bit code units. Its utf8 encoding, as Buffer
  and the cipher compute it, takes a code unit below \<open>0x80\<close> to one byte, one below
  \<open>0x800\<close> to two bytes, a high surrogate followed by a low surrogate to the four bytes
  of their code point, any other code unit outside the surrogate range to three bytes,
  and a surrogate without its partner to the three bytes \<open>EF BF BD\<close> of the
  replacement character \<open>U+FFFD\<close>. The decoding reads these sequences back; bytes that
  are not part of one give \<open>U+FFFD\<close>.
\<close>

definition is_high_surrogate :: "code_unit \<Rightarrow> bool" where
  "is_high_surrogate u \<longleftrightarrow> 0xD800 \<le> u \<and> u < 0xDC00"

definition is_low_surrogate :: "code_unit \<Rightarrow> bool" where
  "is_low_surrogate u \<longleftrightarrow> 0xDC00 \<le> u \<and> u < 0xE000"

definition utf8_of_code_point :: "32 word \<Rightarrow> buffer" where
  "utf8_of_code_point cp =
     (if cp < 0x80 then [ucast cp]
      else if cp < 0x800 then
        [0xC0 OR ucast (drop_bit 6 cp), 0x80 OR ucast (cp AND 0x3F)]
      else if cp < 0x10000 then
        [0xE0 OR ucast (drop_bit 12 cp), 0x80 OR ucast (drop_bit 6 cp AND 0x3F),
         0x80 OR ucast (cp AND 0x3F)]
      else
        [0xF0 OR ucast (drop_bit 18 cp), 0x80 OR ucast (drop_bit 12 cp AND 0x3F),
         0x80 OR ucast (drop_bit 6 cp AND 0x3F), 0x80 OR ucast (cp AND 0x3F)])"

fun js_utf8_encode :: "code_unit list \<Rightarrow> buffer" where
  "js_utf8_encode [] = []"
| "js_utf8_encode [u] =
     (if is_high_surrogate u \<or> is_low_surrogate u then [0xEF, 0xBF, 0xBD]
      else utf8_of_code_point (ucast u))"
| "js_utf8_encode (u # l # us) =
     (if is_high_surrogate u \<and> is_low_surrogate l then
        utf8_of_code_point (0x10000 + push_bit 10 (ucast (u AND 0x3FF)) + ucast (l AND 0x3FF))
        @ js_utf8_encode us
      else if is_high_surrogate u \<or> is_low_surrogate u then
        [0xEF, 0xBF, 0xBD] @ js_utf8_encode (l # us)
      else utf8_of_code_point (ucast u) @ js_utf8_encode (l # us))"

definition is_continuation :: "byte \<Rightarrow> bool" where
  "is_continuation b \<longleftrightarrow> 0x80 \<le> b \<and> b \<le> 0xBF"

definition code_units_of :: "32 word \<Rightarrow> code_unit list" where
  "code_units_of cp =
     (if cp < 0x10000 then [ucast cp]
      else [0xD800 OR ucast (drop_bit 10 (cp - 0x10000)),
            0xDC00 OR ucast ((cp - 0x10000) AND 0x3FF)])"

text \<open>
  The bounds of the byte after the lead byte exclude overlong forms, surrogates and code
  points above \<open>U+10FFFF\<close>.
\<close>

definition second_ok :: "byte \<Rightarrow> byte \<Rightarrow> bool" where
  "second_ok lead b \<longleftrightarrow>
     (if lead = 0xE0 then 0xA0 \<le> b \<and> b \<le> 0xBF
      else if lead = 0xED then 0x80 \<le> b \<and> b \<le> 0x9F
      else if lead = 0xF0 then 0x90 \<le> b \<and> b \<le> 0xBF
      else if lead = 0xF4 then 0x80 \<le> b \<and> b \<le> 0x8F
      else is_continuation b)"

fun js_utf8_decode :: "buffer \<Rightarrow> code_unit list" where
  "js_utf8_decode [] = []"
| "js_utf8_decode (b # bs) =
     (if b < 0x80 then ucast b # js_utf8_decode bs
      else if 0xC2 \<le> b \<and> b \<le> 0xDF then
        (case bs of
           c1 # r1 \<Rightarrow>
             if is_continuation c1
             then code_units_of (push_bit 6 (ucast (b AND 0x1F)) OR ucast (c1 AND 0x3F))
                  @ js_utf8_decode r1
             else 0xFFFD # js_utf8_decode bs
         | [] \<Rightarrow> [0xFFFD])
      else if 0xE0 \<le> b \<and> b \<le> 0xEF then
        (case bs of
           c1 # c2 # r2 \<Rightarrow>
             if second_ok b c1 \<and> is_continuation c2
             then code_units_of (push_bit 12 (ucast (b AND 0x0F))
                    OR push_bit 6 (ucast (c1 AND 0x3F)) OR ucast (c2 AND 0x3F))
                  @ js_utf8_decode r2
             else if second_ok b c1 then 0xFFFD # js_utf8_decode (c2 # r2)
             else 0xFFFD # js_utf8_decode bs
         | [c1] \<Rightarrow> if second_ok b c1 then [0xFFFD] else 0xFFFD # js_utf8_decode bs
         | [] \<Rightarrow> [0xFFFD])
      else if 0xF0 \<le> b \<and> b \<le> 0xF4 then
        (case bs of
           c1 # c2 # c3 # r3 \<Rightarrow>
             if second_ok b c1 \<and> is_continuation c2 \<and> is_continuation c3
             then code_units_of (push_bit 18 (ucast (b AND 0x07))
                    OR push_bit 12 (ucast (c1 AND 0x3F))
                    OR push_bit 6 (ucast (c2 AND 0x3F)) OR ucast (c3 AND 0x3F))
                  @ js_utf8_decode r3
             else if second_ok b c1 \<and> is_continuation c2 then 0xFFFD # js_utf8_decode (c3 # r3)
             else if second_ok b c1 then 0xFFFD # js_utf8_decode (c2 # c3 # r3)
             else 0xFFFD # js_utf8_decode bs
         | [c1, c2] \<Rightarrow>
             if second_ok b c1 \<and> is_continuation c2 then [0xFFFD]
             else if second_ok b c1 then 0xFFFD # js_utf8_decode [c2]
             else 0xFFFD # js_utf8_decode bs
         | [c1] \<Rightarrow> if second_ok b c1 then [0xFFFD] else 0xFFFD # js_utf8_decode bs
         | [] \<Rightarrow> [0xFFFD])
      else 0xFFFD # js_utf8_decode bs)"

definition js_runtime :: "code_unit runtime" where
  "js_runtime =
     \<lparr> pbkdf2Sync = demo_pbkdf2Sync,
       cipher = demo_cipher,
       decipher = demo_decipher,
       base64_encode = demo_base64_encode,
       base64_decode = demo_base64_decode,
       utf8_encode = js_utf8_encode,
       utf8_decode = js_utf8_decode,
       JSON_parse = demo_JSON_parse [],
       JSON_stringify = demo_JSON_stringify [] \<rparr>"

text \<open>
  The string \<open>Hello\<close>, a space, two Chinese characters, a space and a rocket (a
  surrogate pair), and the string of one high surrogate.
\<close>

definition unicode_text :: "code_unit list" where
  "unicode_text = [0x48, 0x65, 0x6C, 0x6C, 0x6F, 0x20, 0x4E16, 0x754C, 0x20, 0xD83D, 0xDE80]"

definition lone_surrogate :: "code_unit list" where
  "lone_surrogate = [0xD800]"

section \<open>Concrete profiles, files and stores\<close>

definition profile_a :: DbConfig where
  "profile_a = \<lparr> id' = ''a'', name = ''X'', type = postgres, host = ''localhost'',
                 port = 5432, user = ''postgres'', password = ''s3cr3t'',
                 database = ''testdb'', ssl = False, verbose = False, group' = None \<rparr>"

definition profile_b :: DbConfig where
  "profile_b = \<lparr> id' = ''b'', name = ''Y'', type = postgres, host = ''db.example.com'',
                 port = 5433, user = ''admin'', password = ''hunter2'',
                 database = ''prod'', ssl = True, verbose = False, group' = Some ''work'' \<rparr>"

text \<open>A second profile with the id of \<open>profile_a\<close>.\<close>

definition profile_a2 :: DbConfig where
  "profile_a2 = profile_a\<lparr>name := ''Z'', host := ''10.0.0.7'', password := ''other''\<rparr>"

text \<open>
  An object that passes the schema without being of its output shape: \<open>ssl\<close> and
  \<open>verbose\<close> are left to their defaults and there is a property the schema does not
  know. And an object that does not pass.
\<close>

definition raw_profile_c :: json where
  "raw_profile_c =
     JObj [(''note'', JStr ''staging''), (''id'', JStr ''c''), (''name'', JStr ''W''),
           (''type'', JStr ''postgres''), (''host'', JStr ''stage''), (''port'', JNum 5432),
           (''user'', JStr ''app''), (''password'', JStr ''pa55''),
           (''database'', JStr ''stage'')]"

definition invalid_profile :: json where
  "invalid_profile = JObj [(''id'', JStr ''test''), (''name'', JStr ''Test'')]"

definition host_up :: env where
  "host_up = \<lparr> secrets_ok = True, disk_ok = True \<rparr>"

definition host_down :: env where
  "host_down = \<lparr> secrets_ok = False, disk_ok = False \<rparr>"

definition demo_now :: string where
  "demo_now = ''2026-01-01T00:00:00.000Z''"

definition demo_table :: "(string \<times> json) list" where
  "demo_table =
     [(''[a]'', metadata_json [DbConfig_json profile_a]),
      (''[a,b]'', metadata_json [DbConfig_json profile_a, DbConfig_json profile_b]),
      (''[b]'', metadata_json [DbConfig_json profile_b]),
      (''[a,c]'', metadata_json [DbConfig_json profile_a, raw_profile_c]),
      (''[c]'', metadata_json [raw_profile_c]),
      (''[a,a2]'', metadata_json [DbConfig_json profile_a, DbConfig_json profile_a2]),
      (''[a2,b]'', metadata_json [DbConfig_json profile_a2, DbConfig_json profile_b]),
      (''[A,B]'', JArr [DbConfig_json profile_a, DbConfig_json profile_b]),
      (''[A,A2]'', JArr [DbConfig_json profile_a, DbConfig_json profile_a2]),
      (''{version:1,connections:[A,B]}'',
         exportData demo_now [DbConfig_json profile_a, DbConfig_json profile_b]),
      (''{version:1,connections:[A,A2]}'',
         exportData demo_now [DbConfig_json profile_a, DbConfig_json profile_a2])]"

definition demo :: "char runtime" where
  "demo = demo_runtime demo_table"

definition empty_world :: world where
  "empty_world = \<lparr> configs = [], configFile = None, secrets = Map.empty, effects = [] \<rparr>"

text \<open>A store that holds \<open>profile_a\<close>, its metadata file and its keychain entry.\<close>

definition world_a :: world where
  "world_a = \<lparr> configs = [DbConfig_json profile_a], configFile = Some ''[a]'',
               secrets = [''a'' \<mapsto> ''s3cr3t''], effects = [] \<rparr>"

text \<open>A store that holds \<open>profile_a\<close> and \<open>profile_b\<close> with their passwords in memory.\<close>

definition world_ab :: world where
  "world_ab = \<lparr> configs = [DbConfig_json profile_a, DbConfig_json profile_b],
                configFile = Some ''[a,b]'',
                secrets = [''a'' \<mapsto> ''s3cr3t'', ''b'' \<mapsto> ''hunter2''], effects = [] \<rparr>"

text \<open>A store that holds \<open>profile_a2\<close>, and so the id \<open>a\<close>.\<close>

definition world_a2 :: world where
  "world_a2 = \<lparr> configs = [DbConfig_json profile_a2], configFile = None,
                secrets = [''a'' \<mapsto> ''other''], effects = [] \<rparr>"

text \<open>
  The store after two \<open>addConfig\<close> calls with profiles of the same id, and the contents
  that \<open>exportToFile\<close> gives for it and for \<open>world_ab\<close> under the password
  \<open>hunter2\<close>.
\<close>

definition world_dup :: world where
  "world_dup = run demo [(host_up, Add (DbConfig_json profile_a)),
                         (host_up, Add (DbConfig_json profile_a2))] empty_world"

definition demo_salt :: buffer where
  "demo_salt = [1, 2, 3, 4, 5, 6, 7, 8, 9, 10, 11, 12, 13, 14, 15, 16]"

definition demo_salt2 :: buffer where
  "demo_salt2 = [16, 15, 14, 13, 12, 11, 10, 9, 8, 7, 6, 5, 4, 3, 2, 1]"

definition demo_iv :: buffer where
  "demo_iv = [200, 201, 202, 203, 204, 205, 206, 207, 208, 209, 210, 211, 212, 213, 214, 215]"

definition sealed_dup :: string where
  "sealed_dup = exportToFile demo demo_now demo_salt demo_iv (Some ''hunter2'') False world_dup"

definition sealed_ab :: string where
  "sealed_ab = exportToFile demo demo_now demo_salt demo_iv (Some ''hunter2'') False world_ab"

section \<open>The small runtime has the guarantees\<close>

lemma word_of_nat_unat: "word_of_nat (unat b) = (b :: byte)"
  by simp

lemma byte_lt: "unat (a :: byte) < 256"
  using unsigned_less [of a] by simp

lemma demo_nibbles:
  "(word_of_nat ((of_char (char_of (65 + unat a div 16 :: nat)) - 65) * 16
      + (of_char (char_of (65 + unat a mod 16 :: nat)) - 65)) :: byte) = a"
proof -
  have hi: "(65 + unat a div 16) mod 256 = 65 + unat a div 16"
    using byte_lt [of a] by simp
  have lo: "(65 + unat a mod 16) mod 256 = 65 + unat a mod 16"
    by simp
  have "(of_char (char_of (65 + unat a div 16 :: nat)) - 65) * 16
      + (of_char (char_of (65 + unat a mod 16 :: nat)) - 65) = unat a"
    by (simp only: of_char_of hi lo) simp
  then have "(word_of_nat ((of_char (char_of (65 + unat a div 16 :: nat)) - 65) * 16
      + (of_char (char_of (65 + unat a mod 16 :: nat)) - 65)) :: byte) = word_of_nat (unat a)"
    by (rule arg_cong)
  then show ?thesis by (simp only: word_of_nat_unat)
qed

lemma demo_base64_roundtrip: "demo_base64_decode (demo_base64_encode bs) = bs"
proof (induction bs)
  case Nil
  show ?case by (simp add: demo_base64_encode_def)
next
  case (Cons a bs)
  have "demo_base64_encode (a # bs)
      = char_of (65 + unat a div 16) # char_of (65 + unat a mod 16) # demo_base64_encode bs"
    by (simp add: demo_base64_encode_def)
  then show ?case
    using Cons.IH by (simp only: demo_base64_decode.simps demo_nibbles)
qed

lemma demo_letter_no_colon: "n < 16 \<Longrightarrow> char_of (65 + n :: nat) \<noteq> CHR '':''"
proof
  assume n: "n < 16" and eq: "char_of (65 + n) = CHR '':''"
  have "(of_char (char_of (65 + n)) :: nat) = (65 + n) mod 256" by (rule of_char_of)
  with n have "(of_char (char_of (65 + n)) :: nat) = 65 + n" by simp
  with eq show False by simp
qed

lemma demo_base64_no_colon: "CHR '':'' \<notin> set (demo_base64_encode bs)"
proof -
  have d: "unat b div 16 < 16" for b :: byte
    using byte_lt [of b] by simp
  have m: "unat b mod 16 < 16" for b :: byte
    by simp
  show ?thesis
    using demo_letter_no_colon [OF d] demo_letter_no_colon [OF m]
    by (induction bs) (simp_all add: demo_base64_encode_def, metis+)
qed

lemma demo_cipher_roundtrip: "demo_decipher algo key iv (demo_cipher algo key iv bs) = Some bs"
  by (simp add: demo_decipher_def demo_cipher_def Let_def comp_def)

lemma demo_utf8_roundtrip: "demo_utf8_decode (demo_utf8_encode s) = s"
  by (induction s) (simp_all add: demo_utf8_decode_def demo_utf8_encode_def unat_of_nat)

lemma demo_crypto_sound: "crypto_sound (demo_runtime table)"
  by (simp add: crypto_sound_def demo_runtime_def demo_base64_roundtrip demo_base64_no_colon
      demo_cipher_roundtrip demo_pbkdf2Sync_def)

lemma demo_utf8: "utf8_decode (demo_runtime table) (utf8_encode (demo_runtime table) s) = s"
  by (simp add: demo_runtime_def demo_utf8_roundtrip)

lemma js_crypto_sound: "crypto_sound js_runtime"
  by (simp add: crypto_sound_def js_runtime_def demo_base64_roundtrip demo_base64_no_colon
      demo_cipher_roundtrip demo_pbkdf2Sync_def)

section \<open>The envelope of encrypt and decrypt\<close>

lemma split_not_Nil: "split sep s \<noteq> []"
  by (induction s) (auto split: list.splits)

lemma split_no_sep: "sep \<notin> set s \<Longrightarrow> split sep s = [s]"
  by (induction s) auto

lemma split_append: "sep \<notin> set a \<Longrightarrow> split sep (a @ sep # r) = a # split sep r"
  by (induction a) auto

lemma startsWith_append: "startsWith (p @ s) p"
  by (simp add: startsWith_def)

lemma encrypt_startsWith: "startsWith (encrypt rt salt iv data pw) MSG_PREFIX"
  by (simp add: encrypt_def Let_def startsWith_append)

lemma encrypt_parts:
  assumes "crypto_sound rt"
  shows "split CHR '':'' (drop (length MSG_PREFIX) (encrypt rt salt iv data pw))
       = [base64_encode rt salt, base64_encode rt iv,
          base64_encode rt (cipher rt CIPHER_ALGO
            (pbkdf2Sync rt pw salt ITERATIONS KEY_LEN ALGO) iv (utf8_encode rt data))]"
  using assms by (simp add: encrypt_def crypto_sound_def Let_def split_append split_no_sep)

text \<open>
  C5. A string that does not start with the prefix \<open>ENC:\<close>, or whose rest does not split
  at the colons into exactly three parts, makes \<open>decrypt\<close> throw the format error. A
  string with the prefix and exactly three parts never gives the format error: it
  returns, or fails with the error of the decipher, which is a different error.
\<close>

theorem decrypt_format_error:
  "(\<not> startsWith s MSG_PREFIX \<or> length (split CHR '':'' (drop (length MSG_PREFIX) s)) \<noteq> 3
      \<longrightarrow> decrypt rt s pw = Inl InvalidEncryptedFormat)
   \<and> (startsWith s MSG_PREFIX \<and> length (split CHR '':'' (drop (length MSG_PREFIX) s)) = 3
      \<longrightarrow> decrypt rt s pw \<noteq> Inl InvalidEncryptedFormat
        \<and> (decrypt rt s pw = Inl DecipherError \<or> (\<exists>t. decrypt rt s pw = Inr t)))"
  by (auto simp: decrypt_def Let_def split: list.splits option.splits)

theorem decrypt_format_error_witness:
  "\<not> startsWith ''not-encrypted'' MSG_PREFIX
   \<and> decrypt (demo_runtime []) ''not-encrypted'' ''test-password-123''
       = Inl InvalidEncryptedFormat
   \<and> length (split CHR '':'' (drop (length MSG_PREFIX) ''ENC:invalid:format'')) \<noteq> 3
   \<and> decrypt (demo_runtime []) ''ENC:invalid:format'' ''test-password-123''
       = Inl InvalidEncryptedFormat
   \<and> startsWith ''ENC:AB:CD:EF'' MSG_PREFIX
   \<and> length (split CHR '':'' (drop (length MSG_PREFIX) ''ENC:AB:CD:EF'')) = 3
   \<and> decrypt (demo_runtime []) ''ENC:AB:CD:EF'' ''test-password-123''
       \<noteq> Inl InvalidEncryptedFormat"
proof -
  have a: "\<not> startsWith ''not-encrypted'' MSG_PREFIX"
    by (simp add: startsWith_def MSG_PREFIX_def)
  have b: "length (split CHR '':'' (drop (length MSG_PREFIX) ''ENC:invalid:format'')) \<noteq> 3"
    by (simp add: MSG_PREFIX_def)
  have c: "startsWith ''ENC:AB:CD:EF'' MSG_PREFIX"
    by (simp add: startsWith_def MSG_PREFIX_def)
  have d: "length (split CHR '':'' (drop (length MSG_PREFIX) ''ENC:AB:CD:EF'')) = 3"
    by (simp add: MSG_PREFIX_def)
  show ?thesis
    using a b c d
      decrypt_format_error [of "''not-encrypted''" "demo_runtime []" "''test-password-123''"]
      decrypt_format_error [of "''ENC:invalid:format''" "demo_runtime []" "''test-password-123''"]
      decrypt_format_error [of "''ENC:AB:CD:EF''" "demo_runtime []" "''test-password-123''"]
    by blast
qed

lemma decrypt_encrypt:
  assumes "crypto_sound rt" and "length iv = IV_LEN"
    and "utf8_decode rt (utf8_encode rt txt) = txt"
  shows "decrypt rt (encrypt rt salt iv txt pw) pw = Inr txt"
  using assms
  by (simp add: decrypt_def encrypt_def crypto_sound_def Let_def startsWith_append
      split_append split_no_sep)

lemma decrypt_encrypt_utf8:
  assumes "crypto_sound rt" and "length iv = IV_LEN"
  shows "decrypt rt (encrypt rt salt iv txt pw) pw = Inr (utf8_decode rt (utf8_encode rt txt))"
  using assms
  by (simp add: decrypt_def encrypt_def crypto_sound_def Let_def startsWith_append
      split_append split_no_sep)

text \<open>
  C2, as the code has it. Under a runtime with the guarantees of \<open>crypto_sound\<close>, for
  every password, every salt and every IV of \<open>IV_LEN\<close> bytes, \<open>decrypt\<close> of
  \<open>encrypt\<close> of a text under the same password returns the text, for every text that
  the utf8 decoding recovers from its utf8 encoding. Nothing is asked of the length or
  content of the text otherwise: it may be empty, hold characters outside ASCII and
  surrogate pairs, or be long.
\<close>

theorem seal_open_roundtrip:
  assumes "crypto_sound rt" and "length iv = IV_LEN"
    and "utf8_decode rt (utf8_encode rt data) = data"
  shows "decrypt rt (encrypt rt salt iv data pw) pw = Inr data"
  using assms
  by (simp add: decrypt_def encrypt_def crypto_sound_def Let_def startsWith_append
      split_append split_no_sep)

theorem seal_open_roundtrip_witness:
  "crypto_sound js_runtime \<and> length demo_iv = IV_LEN
   \<and> utf8_decode js_runtime (utf8_encode js_runtime unicode_text) = unicode_text
   \<and> utf8_decode js_runtime (utf8_encode js_runtime []) = []
   \<and> decrypt js_runtime
        (encrypt js_runtime demo_salt demo_iv unicode_text ''test-password-123'')
        ''test-password-123'' = Inr unicode_text
   \<and> decrypt js_runtime
        (encrypt js_runtime demo_salt demo_iv [] ''test-password-123'')
        ''test-password-123'' = Inr []"
proof -
  have len: "length demo_iv = IV_LEN"
    by (simp add: demo_iv_def IV_LEN_def)
  have u: "utf8_decode js_runtime (utf8_encode js_runtime unicode_text) = unicode_text"
    by code_simp
  have n: "utf8_decode js_runtime (utf8_encode js_runtime []) = []"
    by (simp add: js_runtime_def)
  show ?thesis
    using len js_crypto_sound u n
      seal_open_roundtrip [OF js_crypto_sound len u, of demo_salt "''test-password-123''"]
      seal_open_roundtrip [OF js_crypto_sound len n, of demo_salt "''test-password-123''"]
    by simp
qed

text \<open>
  The claim as stated fails on a string with an unpaired surrogate: its utf8 encoding
  is that of the replacement character, so \<open>decrypt\<close> returns the string of
  \<open>U+FFFD\<close> and not the string of the surrogate \<open>U+D800\<close> that was sealed.
\<close>

theorem seal_open_lone_surrogate_counterexample:
  "crypto_sound js_runtime \<and> length demo_iv = IV_LEN
   \<and> lone_surrogate = [0xD800]
   \<and> decrypt js_runtime
        (encrypt js_runtime demo_salt demo_iv lone_surrogate ''test-password-123'')
        ''test-password-123'' = Inr [0xFFFD]
   \<and> decrypt js_runtime
        (encrypt js_runtime demo_salt demo_iv lone_surrogate ''test-password-123'')
        ''test-password-123'' \<noteq> Inr lone_surrogate"
proof -
  have len: "length demo_iv = IV_LEN"
    by (simp add: demo_iv_def IV_LEN_def)
  have lossy: "utf8_decode js_runtime (utf8_encode js_runtime lone_surrogate) = [0xFFFD]"
    by code_simp
  have differs: "[0xFFFD] \<noteq> lone_surrogate"
    by (simp add: lone_surrogate_def)
  have unit: "lone_surrogate = [0xD800]"
    by (simp add: lone_surrogate_def)
  have opened: "decrypt js_runtime
        (encrypt js_runtime demo_salt demo_iv lone_surrogate ''test-password-123'')
        ''test-password-123'' = Inr [0xFFFD]"
    using decrypt_encrypt_utf8 [OF js_crypto_sound len,
        of demo_salt lone_surrogate "''test-password-123''"]
    by (simp only: lossy)
  show ?thesis
    using len js_crypto_sound unit differs by (simp only: opened) simp
qed

text \<open>
  C8. Under a runtime with the guarantees of \<open>crypto_sound\<close>, two calls of \<open>encrypt\<close>
  on the same text and password whose draws of salt and IV are not the same pair give
  different envelopes.
\<close>

theorem seal_fresh_draws_differ:
  assumes sound: "crypto_sound rt" and fresh: "(salt1, iv1) \<noteq> (salt2, iv2)"
  shows "encrypt rt salt1 iv1 data pw \<noteq> encrypt rt salt2 iv2 data pw"
proof
  assume eq: "encrypt rt salt1 iv1 data pw = encrypt rt salt2 iv2 data pw"
  have "split CHR '':'' (drop (length MSG_PREFIX) (encrypt rt salt1 iv1 data pw))
      = split CHR '':'' (drop (length MSG_PREFIX) (encrypt rt salt2 iv2 data pw))"
    by (simp only: eq)
  then have parts: "base64_encode rt salt1 = base64_encode rt salt2"
      "base64_encode rt iv1 = base64_encode rt iv2"
    by (simp_all only: encrypt_parts [OF sound] list.inject)
  have dec: "base64_decode rt (base64_encode rt bs) = bs" for bs
    using sound by (simp add: crypto_sound_def)
  have "salt1 = salt2"
    using arg_cong [OF parts(1), of "base64_decode rt"] by (simp only: dec)
  moreover have "iv1 = iv2"
    using arg_cong [OF parts(2), of "base64_decode rt"] by (simp only: dec)
  ultimately show False
    using fresh by simp
qed

theorem seal_fresh_draws_differ_witness:
  "crypto_sound (demo_runtime []) \<and> (demo_salt, demo_iv) \<noteq> (demo_salt2, demo_iv)
   \<and> encrypt (demo_runtime []) demo_salt demo_iv ''sensitive data'' ''test-password-123''
     \<noteq> encrypt (demo_runtime []) demo_salt2 demo_iv ''sensitive data'' ''test-password-123''"
proof -
  have fresh: "(demo_salt, demo_iv) \<noteq> (demo_salt2, demo_iv)"
    by (simp add: demo_salt_def demo_salt2_def)
  show ?thesis
    using fresh demo_crypto_sound [of "[]"]
      seal_fresh_draws_differ [OF demo_crypto_sound [of "[]"] fresh,
        of "''sensitive data''" "''test-password-123''"]
    by simp
qed

section \<open>Schemas and serialised configurations\<close>

lemma DbConfigSchema_json: "DbConfigSchema_parse (DbConfig_json c) = Inr c"
  by (cases c; cases "type c"; cases "group' c")
    (simp_all add: DbConfigSchema_parse_def DbConfig_json_def DbConfigSchema_issues_def
      issue_at_def z_string_def z_number_def z_boolean_def DbTypeSchema_def z_default_def
      z_optional_def Let_def)

lemma array_items_json: "array_items i (map DbConfig_json cs) = ([], cs)"
  by (induction cs arbitrary: i) (simp_all add: DbConfigSchema_json)

lemma ConfigFileSchema_json: "ConfigFileSchema_parse (JArr (map DbConfig_json cs)) = Inr cs"
  by (simp add: ConfigFileSchema_parse_def array_items_json)

lemma get_prop_with_password:
  "get_prop (with_password c p) ''password'' = Inr (Some (JStr p))"
  by (simp add: get_prop_def with_password_def update_conv')

lemma metadata_passwordless: "passwordless rt (metadata_content rt cs)"
  unfolding passwordless_def metadata_content_def metadata_json_def
  by (rule exI [of _ "map (\<lambda>c. with_password c []) cs"])
    (auto simp: get_prop_with_password)

lemma DbConfig_json_with_password:
  "with_password (DbConfig_json c) p = DbConfig_json (c\<lparr>password := p\<rparr>)"
  by (simp add: with_password_def DbConfig_json_def)

lemma DbConfig_json_assign_password:
  "assign_password (DbConfig_json c) p = DbConfig_json (c\<lparr>password := p\<rparr>)"
  by (simp add: assign_password_def DbConfig_json_def)

lemma DbConfig_json_id: "js_prop (DbConfig_json c) ''id'' = Some (JStr (id' c))"
  by (simp add: js_prop_def DbConfig_json_def)

text \<open>What the schema's reading of an object says about the object.\<close>

lemma issue_at_Nil: "issue_at k r = [] \<longleftrightarrow> r \<noteq> None"
  by (cases r) (simp_all add: issue_at_def)

lemma parsed_object:
  assumes "DbConfigSchema_parse v = Inr c"
  obtains kvs where "v = JObj kvs" and "DbConfigSchema_issues (map_of kvs) = []"
  using assms
  by (cases v) (auto simp: DbConfigSchema_parse_def Let_def split: if_splits)

lemma parsed_id:
  assumes "DbConfigSchema_parse v = Inr c"
  shows "js_prop v ''id'' = Some (JStr (id' c))"
proof -
  from assms obtain kvs where v: "v = JObj kvs" and ok: "DbConfigSchema_issues (map_of kvs) = []"
    by (rule parsed_object)
  from ok have "z_string (map_of kvs ''id'') \<noteq> None"
    by (simp add: DbConfigSchema_issues_def issue_at_Nil)
  then obtain s where s: "map_of kvs ''id'' = Some (JStr s)"
    by (auto simp: z_string_def split: option.splits json.splits)
  from assms v ok s show ?thesis
    by (auto simp: DbConfigSchema_parse_def Let_def js_prop_def z_string_def)
qed

lemma parsed_with_password:
  assumes "DbConfigSchema_parse v = Inr c"
  shows "DbConfigSchema_parse (with_password v p) = Inr (c\<lparr>password := p\<rparr>)"
proof -
  from assms obtain kvs where v: "v = JObj kvs" and ok: "DbConfigSchema_issues (map_of kvs) = []"
    by (rule parsed_object)
  have ok': "DbConfigSchema_issues ((map_of kvs)(''password'' \<mapsto> JStr p)) = []"
    using ok by (simp add: DbConfigSchema_issues_def issue_at_Nil z_default_def z_string_def)
  from assms v ok have c: "c = \<lparr> id' = the (z_string (map_of kvs ''id'')),
                         name = the (z_string (map_of kvs ''name'')),
                         type = the (DbTypeSchema (map_of kvs ''type'')),
                         host = the (z_string (map_of kvs ''host'')),
                         port = the (z_number (map_of kvs ''port'')),
                         user = the (z_string (map_of kvs ''user'')),
                         password = the (z_default z_string [] (map_of kvs ''password'')),
                         database = the (z_string (map_of kvs ''database'')),
                         ssl = the (z_default z_boolean False (map_of kvs ''ssl'')),
                         verbose = the (z_default z_boolean False (map_of kvs ''verbose'')),
                         group' = the (z_optional z_string (map_of kvs ''group'')) \<rparr>"
    by (simp add: DbConfigSchema_parse_def Let_def)
  show ?thesis
    using ok' by (simp add: v with_password_def DbConfigSchema_parse_def Let_def update_conv' c
        z_default_def z_string_def)
qed

lemma parse_issues_nonempty: "DbConfigSchema_parse v \<noteq> Inl (ZodError [])"
  by (cases v) (simp_all add: DbConfigSchema_parse_def Let_def)

lemma array_items_reads:
  "array_items i objects = ([], cs)
     \<longleftrightarrow> list_all2 (\<lambda>v c. DbConfigSchema_parse v = Inr c) objects cs"
proof (induction objects arbitrary: i cs)
  case Nil
  show ?case by auto
next
  case (Cons v vs)
  obtain issues cs' where rest: "array_items (Suc i) vs = (issues, cs')"
    by (cases "array_items (Suc i) vs")
  show ?case
  proof (cases "DbConfigSchema_parse v")
    case (Inr c)
    then show ?thesis
      using rest Cons.IH [of "Suc i"] by (auto simp: list_all2_Cons1)
  next
    case (Inl err)
    have ne: "err \<noteq> ZodError []"
      using Inl parse_issues_nonempty [of v] by auto
    show ?thesis
      using Inl rest ne by (cases err) (auto simp: list_all2_Cons1)
  qed
qed

lemma holds_profiles_reads:
  "holds_profiles objects cs
     \<longleftrightarrow> list_all2 (\<lambda>v c. DbConfigSchema_parse v = Inr c) objects cs"
proof -
  obtain issues cs' where a: "array_items 0 objects = (issues, cs')"
    by (cases "array_items 0 objects")
  show ?thesis
    using a array_items_reads [of 0 objects cs]
    by (auto simp: holds_profiles_def ConfigFileSchema_parse_def)
qed

lemma holds_profiles_json: "holds_profiles (map DbConfig_json cs) cs"
  by (simp add: holds_profiles_def ConfigFileSchema_json)

lemma holds_profiles_metadata:
  assumes "holds_profiles objects cs"
  shows "ConfigFileSchema_parse (metadata_json objects)
       = Inr (map (\<lambda>c. c\<lparr>password := []\<rparr>) cs)"
proof -
  have "list_all2 (\<lambda>v c. DbConfigSchema_parse v = Inr c)
      (map (\<lambda>c. with_password c []) objects) (map (\<lambda>c. c\<lparr>password := []\<rparr>) cs)"
    using assms
    by (simp add: holds_profiles_reads list_all2_map1 list_all2_map2 parsed_with_password
        list_all2_mono)
  then show ?thesis
    using holds_profiles_reads [of "map (\<lambda>c. with_password c []) objects"]
    by (simp add: metadata_json_def holds_profiles_def)
qed

section \<open>What each call changes\<close>

lemma setPassword_frame [simp]:
  "configs (snd (setPassword e a p w)) = configs w"
  "configFile (snd (setPassword e a p w)) = configFile w"
  "effects (snd (setPassword e a p w)) = effects w @ [SetPassword a p]"
  by (simp_all add: setPassword_def Let_def)

lemma getPassword_frame [simp]:
  "configs (snd (getPassword e a w)) = configs w"
  "configFile (snd (getPassword e a w)) = configFile w"
  "secrets (snd (getPassword e a w)) = secrets w"
  "effects (snd (getPassword e a w)) = effects w @ [GetPassword a]"
  by (simp_all add: getPassword_def Let_def split: option.splits)

lemma deletePassword_frame [simp]:
  "configs (snd (deletePassword e a w)) = configs w"
  "configFile (snd (deletePassword e a w)) = configFile w"
  "effects (snd (deletePassword e a w)) = effects w @ [DeletePassword a]"
  by (simp_all add: deletePassword_def Let_def)

lemma saveConfigRaw_frame [simp]:
  "configs (saveConfigRaw rt e w) = configs w"
  "secrets (saveConfigRaw rt e w) = secrets w"
  "effects (saveConfigRaw rt e w) = effects w @ [WriteFile (metadata_content rt (configs w))]"
  "configFile (saveConfigRaw rt e w) =
     (if disk_ok e then Some (metadata_content rt (configs w)) else configFile w)"
  by (simp_all add: saveConfigRaw_def metadata_content_def metadata_json_def Let_def)

section \<open>addConfig on an invalid profile\<close>

text \<open>
  C7. When \<open>DbConfigSchema.parse\<close> rejects the profile, \<open>addConfig\<close> throws the
  validation error of the schema (a ZodError with at least one issue) and leaves the
  state as it was: the array in memory, the metadata file, the keychain, and the list of
  calls issued, so no file write and no \<open>setPassword\<close> was attempted.
\<close>

theorem addConfig_invalid_unchanged:
  assumes "DbConfigSchema_parse config = Inl err"
  shows "addConfig rt e config w = (Some err, w)
       \<and> (\<exists>issues. issues \<noteq> [] \<and> err = ZodError issues)"
  using assms
  by (auto simp: addConfig_def DbConfigSchema_parse_def Let_def split: json.splits if_splits)

theorem addConfig_invalid_unchanged_witness:
  "DbConfigSchema_parse invalid_profile
     = Inl (ZodError [[Key ''type''], [Key ''host''], [Key ''port''], [Key ''user''],
                      [Key ''database'']])
   \<and> addConfig demo host_up invalid_profile world_a
     = (Some (ZodError [[Key ''type''], [Key ''host''], [Key ''port''], [Key ''user''],
                        [Key ''database'']]), world_a)"
proof -
  have bad: "DbConfigSchema_parse invalid_profile
     = Inl (ZodError [[Key ''type''], [Key ''host''], [Key ''port''], [Key ''user''],
                      [Key ''database'']])"
    by code_simp
  show ?thesis
    using bad addConfig_invalid_unchanged [OF bad, of demo host_up world_a] by simp
qed

section \<open>importFromFile on a file that is not JSON\<close>

text \<open>
  C6. When \<open>JSON.parse\<close> rejects the file content and no password is passed,
  \<open>importFromFile\<close> throws \<open>EncryptedFileError\<close> if the content starts with \<open>ENC:\<close>
  and otherwise the SyntaxError that \<open>JSON.parse\<close> threw; the state is unchanged.
\<close>

theorem import_unparsable_without_password:
  assumes "JSON_parse rt fileContent = Inl msg"
  shows "importFromFile rt e fileContent None w =
     (if startsWith fileContent ''ENC:'' then Inl EncryptedFileError
      else Inl (SyntaxError msg), w)"
  using assms by (simp add: importFromFile_def parse_fileContent_def)

theorem import_unparsable_without_password_witness:
  "JSON_parse demo ''ENC:AB:CD:EF'' = Inl ''Unexpected token''
   \<and> importFromFile demo host_up ''ENC:AB:CD:EF'' None world_a = (Inl EncryptedFileError, world_a)
   \<and> JSON_parse demo ''{not json'' = Inl ''Unexpected token''
   \<and> importFromFile demo host_up ''{not json'' None world_a
       = (Inl (SyntaxError ''Unexpected token''), world_a)"
proof -
  have a: "JSON_parse demo ''ENC:AB:CD:EF'' = Inl ''Unexpected token''"
    by code_simp
  have b: "JSON_parse demo ''{not json'' = Inl ''Unexpected token''"
    by code_simp
  show ?thesis
    using a b
      import_unparsable_without_password [OF a, of host_up world_a]
      import_unparsable_without_password [OF b, of host_up world_a]
    by (simp add: startsWith_def)
qed

section \<open>importFromFile on a bare array\<close>

lemma connections_of_exportData:
  "connections_of (exportData now objects) = Inr (JArr objects)"
  by (simp add: connections_of_def exportData_def get_prop_def truthy_def)




section \<open>The metadata file holds no password\<close>

lemma clean_saveConfigRaw: "clean rt w \<Longrightarrow> clean rt (saveConfigRaw rt e w)"
  by (auto simp: clean_def metadata_passwordless)

lemma clean_frame:
  "clean rt w \<Longrightarrow> configFile w' = configFile w
     \<Longrightarrow> \<forall>content. WriteFile content \<in> set (effects w') \<longrightarrow> WriteFile content \<in> set (effects w)
     \<Longrightarrow> clean rt w'"
  by (simp add: clean_def)

lemma clean_save:
  assumes "clean rt w" and "configFile w' = configFile w"
    and "\<forall>content. WriteFile content \<in> set (effects w') \<longrightarrow> WriteFile content \<in> set (effects w)"
  shows "clean rt (saveConfigRaw rt e w')"
  by (rule clean_saveConfigRaw [OF clean_frame [OF assms]])

lemma clean_addConfig: "clean rt w \<Longrightarrow> clean rt (snd (addConfig rt e config w))"
  by (cases "DbConfigSchema_parse config")
    (auto simp: addConfig_def Let_def intro!: clean_save)

lemma clean_updateConfig: "clean rt w \<Longrightarrow> clean rt (updateConfig rt e config w)"
  by (cases "findIndex (\<lambda>c. js_prop c ''id'' = Some (JStr (id' config))) (configs w)")
    (auto simp: updateConfig_def Let_def intro!: clean_save)

lemma clean_removeConfig: "clean rt w \<Longrightarrow> clean rt (removeConfig rt e i w)"
proof -
  assume c: "clean rt w"
  have "clean rt (saveConfigRaw rt e (w\<lparr>configs := filter (\<lambda>c. js_prop c ''id'' \<noteq> Some (JStr i)) (configs w)\<rparr>))"
    by (rule clean_save [OF c]) simp_all
  then have "clean rt (snd (deletePassword e i
      (saveConfigRaw rt e (w\<lparr>configs := filter (\<lambda>c. js_prop c ''id'' \<noteq> Some (JStr i)) (configs w)\<rparr>))))"
    by (rule clean_frame) simp_all
  then show ?thesis
    by (simp add: removeConfig_def Let_def)
qed

lemma clean_step: "clean rt w \<Longrightarrow> clean rt (step rt e x w)"
  by (cases x) (simp_all add: clean_addConfig clean_updateConfig clean_removeConfig)

lemma clean_run: "clean rt w \<Longrightarrow> clean rt (run rt ops w)"
  by (induction ops arbitrary: w) (auto simp: clean_step)

text \<open>
  C1. Start from a state in which every text written to the metadata file so far, and
  the text the file holds, has the empty string as the password of every entry. After
  every sequence of \<open>addConfig\<close>, \<open>updateConfig\<close> and \<open>removeConfig\<close> calls, with any
  arguments (\<open>addConfig\<close> with any value, which it keeps as it is when the schema
  accepts it) and under any behaviour of disk and keychain, the same is true: every
  text written, and the text the file holds, is the serialisation of an array whose
  entries all have \<open>password\<close> equal to \<open>''\<close>.
\<close>

theorem metadata_file_never_holds_password:
  assumes "\<forall>content. WriteFile content \<in> set (effects w) \<longrightarrow> passwordless rt content"
    and "\<forall>content. configFile w = Some content \<longrightarrow> passwordless rt content"
  shows "(\<forall>content. WriteFile content \<in> set (effects (run rt ops w)) \<longrightarrow> passwordless rt content)
       \<and> (\<forall>content. configFile (run rt ops w) = Some content \<longrightarrow> passwordless rt content)"
proof -
  have "clean rt w"
    using assms by (simp add: clean_def)
  then have "clean rt (run rt ops w)"
    by (rule clean_run)
  then show ?thesis
    by (simp add: clean_def)
qed

theorem metadata_file_never_holds_password_witness:
  "effects empty_world = [] \<and> configFile empty_world = None
   \<and> password profile_a = ''s3cr3t''
   \<and> js_prop raw_profile_c ''password'' = Some (JStr ''pa55'')
   \<and> effects (run demo
        [(host_up, Add (DbConfig_json profile_a)),
         (host_up, Update (profile_a\<lparr>password := ''changed''\<rparr>)),
         (host_down, Add raw_profile_c),
         (host_up, Remove ''a'')] empty_world)
       = [SetPassword ''a'' ''s3cr3t'', WriteFile ''[a]'',
          SetPassword ''a'' ''changed'', WriteFile ''[a]'',
          SetPassword ''c'' ''pa55'', WriteFile ''[a,c]'',
          WriteFile ''[c]'', DeletePassword ''a'']
   \<and> configs (run demo
        [(host_up, Add (DbConfig_json profile_a)),
         (host_up, Update (profile_a\<lparr>password := ''changed''\<rparr>)),
         (host_down, Add raw_profile_c),
         (host_up, Remove ''a'')] empty_world) = [raw_profile_c]
   \<and> configFile (run demo
        [(host_up, Add (DbConfig_json profile_a)),
         (host_up, Update (profile_a\<lparr>password := ''changed''\<rparr>)),
         (host_down, Add raw_profile_c),
         (host_up, Remove ''a'')] empty_world) = Some ''[c]''
   \<and> passwordless demo ''[a]'' \<and> passwordless demo ''[a,c]'' \<and> passwordless demo ''[c]''"
proof -
  let ?ops = "[(host_up, Add (DbConfig_json profile_a)),
         (host_up, Update (profile_a\<lparr>password := ''changed''\<rparr>)),
         (host_down, Add raw_profile_c),
         (host_up, Remove ''a'')]"
  have h1: "\<forall>content. WriteFile content \<in> set (effects empty_world) \<longrightarrow> passwordless demo content"
    by (simp add: empty_world_def)
  have h2: "\<forall>content. configFile empty_world = Some content \<longrightarrow> passwordless demo content"
    by (simp add: empty_world_def)
  have pa: "password profile_a = ''s3cr3t''"
    by (simp add: profile_a_def)
  have pc: "js_prop raw_profile_c ''password'' = Some (JStr ''pa55'')"
    by (simp add: raw_profile_c_def js_prop_def)
  have eff: "effects (run demo ?ops empty_world)
       = [SetPassword ''a'' ''s3cr3t'', WriteFile ''[a]'',
          SetPassword ''a'' ''changed'', WriteFile ''[a]'',
          SetPassword ''c'' ''pa55'', WriteFile ''[a,c]'',
          WriteFile ''[c]'', DeletePassword ''a'']"
    by code_simp
  have kept: "configs (run demo ?ops empty_world) = [raw_profile_c]"
    by code_simp
  have written: "configFile (run demo ?ops empty_world) = Some ''[c]''"
    by code_simp
  have start: "effects empty_world = [] \<and> configFile empty_world = None"
    by (simp add: empty_world_def)
  show ?thesis
    using start pa pc eff kept written
      metadata_file_never_holds_password [OF h1 h2, of ?ops]
    by simp
qed

section \<open>Every object of the store fits the schema\<close>

text \<open>
  \<open>addConfig\<close> stores an object only after \<open>DbConfigSchema.parse\<close> accepted it,
  \<open>updateConfig\<close> is called with a \<open>DbConfig\<close>, \<open>removeConfig\<close> only drops objects and
  the constructor stores what \<open>ConfigFileSchema.parse\<close> returned. So a store whose
  objects fit the schema stays so under every sequence of these calls.
\<close>

lemma holds_profiles_filter:
  assumes "holds_profiles objects cs"
  shows "\<exists>cs'. holds_profiles (filter P objects) cs'"
proof -
  have "list_all2 (\<lambda>v c. DbConfigSchema_parse v = Inr c) objects cs"
    using assms by (simp add: holds_profiles_reads)
  then have "\<exists>cs'. list_all2 (\<lambda>v c. DbConfigSchema_parse v = Inr c) (filter P objects) cs'"
  proof (induction rule: list_all2_induct)
    case Nil
    show ?case by simp
  next
    case (Cons v vs c cs)
    then obtain cs' where "list_all2 (\<lambda>v c. DbConfigSchema_parse v = Inr c) (filter P vs) cs'"
      by blast
    with Cons.hyps(1) show ?case
      by (cases "P v") auto
  qed
  then show ?thesis
    by (simp add: holds_profiles_reads)
qed

lemma holds_profiles_update:
  assumes "holds_profiles objects cs"
  shows "holds_profiles (objects[i := DbConfig_json c]) (cs[i := c])"
  using assms
  by (simp add: holds_profiles_reads list_all2_update_cong DbConfigSchema_json)

lemma holds_profiles_snoc:
  assumes "holds_profiles objects cs" and "DbConfigSchema_parse v = Inr c"
  shows "holds_profiles (objects @ [v]) (cs @ [c])"
  using assms by (simp add: holds_profiles_reads list_all2_appendI)

lemma step_holds_profiles:
  assumes "holds_profiles (configs w) cs"
  shows "\<exists>cs'. holds_profiles (configs (step rt e x w)) cs'"
proof (cases x)
  case (Add config)
  show ?thesis
  proof (cases "DbConfigSchema_parse config")
    case (Inl err)
    with Add assms show ?thesis
      by (auto simp: addConfig_def)
  next
    case (Inr c)
    have "configs (step rt e x w) = configs w @ [config]"
      using Add Inr by (simp add: addConfig_def Let_def setPassword_frame)
    then show ?thesis
      using holds_profiles_snoc [OF assms Inr] by auto
  qed
next
  case (Update config)
  show ?thesis
  proof (cases "findIndex (\<lambda>c. js_prop c ''id'' = Some (JStr (id' config))) (configs w)")
    case None
    with Update assms show ?thesis
      by (auto simp: updateConfig_def)
  next
    case (Some index)
    have "configs (step rt e x w) = (configs w)[index := DbConfig_json config]"
      using Update Some by (simp add: updateConfig_def Let_def setPassword_frame)
    then show ?thesis
      using holds_profiles_update [OF assms, of index config] by auto
  qed
next
  case (Remove i)
  have "configs (step rt e x w) = filter (\<lambda>c. js_prop c ''id'' \<noteq> Some (JStr i)) (configs w)"
    using Remove by (simp add: removeConfig_def Let_def deletePassword_frame)
  then show ?thesis
    using holds_profiles_filter [OF assms] by auto
qed

lemma run_holds_profiles:
  assumes "holds_profiles (configs w) cs"
  shows "\<exists>cs'. holds_profiles (configs (run rt ops w)) cs'"
  using assms
proof (induction ops arbitrary: w cs)
  case Nil
  then show ?case by auto
next
  case (Cons x ops)
  obtain e y where x: "x = (e, y)"
    by (cases x)
  from step_holds_profiles [OF Cons.prems, of rt e y]
  obtain cs' where "holds_profiles (configs (step rt e y w)) cs'"
    by blast
  from Cons.IH [OF this] show ?case
    by (simp add: x)
qed

lemma new_ConfigManager_holds_profiles:
  "\<exists>cs. holds_profiles (configs (new_ConfigManager rt w)) cs"
proof -
  have "holds_profiles [] []"
    using holds_profiles_json [of "[]"] by simp
  then show ?thesis
    using holds_profiles_json
    by (auto simp: new_ConfigManager_def loadConfigRaw_def split: option.splits sum.splits)
qed

section \<open>updateConfig with an empty password and the next start\<close>

lemma find_update_first:
  "findIndex (\<lambda>c. id' c = k) xs = Some i \<Longrightarrow> id' c' = k
     \<Longrightarrow> find (\<lambda>c. id' c = k) (xs[i := c']) = Some c'"
proof (induction xs arbitrary: i)
  case Nil
  then show ?case by simp
next
  case (Cons x xs)
  then show ?case by (cases i) (auto split: if_splits)
qed

lemma find_map_comp: "find P (map f xs) = map_option f (find (\<lambda>x. P (f x)) xs)"
  by (induction xs) simp_all

lemma findIndex_reads:
  assumes "list_all2 (\<lambda>v c. DbConfigSchema_parse v = Inr c) objects cs"
  shows "findIndex (\<lambda>c. js_prop c ''id'' = Some (JStr k)) objects
       = findIndex (\<lambda>c. id' c = k) cs"
  using assms
  by (induction rule: list_all2_induct) (simp_all add: parsed_id)

lemma getPassword_hydrated:
  "(case fst (getPassword e (string_of (js_prop c ''id'')) w) of
      Some p \<Rightarrow> assign_password c p
    | None \<Rightarrow> c)
   = hydrated e (secrets w) c"
  by (simp add: getPassword_def hydrated_def Let_def split: option.splits)

lemma loadPasswords_loop_result:
  "fst (loadPasswords_loop e cs w) = map (hydrated e (secrets w)) cs"
proof (induction cs arbitrary: w)
  case Nil
  show ?case by simp
next
  case (Cons c cs)
  have "fst (loadPasswords_loop e cs (snd (getPassword e (string_of (js_prop c ''id'')) w)))
      = map (hydrated e (secrets w)) cs"
    by (simp add: Cons.IH)
  then show ?case
    using getPassword_hydrated [where e = e and c = c and w = w]
    by (simp add: Let_def split_beta)
qed

lemma init_configs:
  "configs (init e w) = map (hydrated e (secrets w)) (configs w)"
  by (simp add: init_def loadPasswordsFromKeychain_def split_beta loadPasswords_loop_result)

lemma loadConfigRaw_metadata:
  assumes "configFile w = Some (metadata_content rt objects)"
    and "json_roundtrip rt (metadata_json objects)"
    and "holds_profiles objects cs"
  shows "loadConfigRaw rt w
       = w\<lparr>configs := map DbConfig_json (map (\<lambda>c. c\<lparr>password := []\<rparr>) cs)\<rparr>"
  using assms(1,2) holds_profiles_metadata [OF assms(3)]
  by (simp add: loadConfigRaw_def metadata_content_def json_roundtrip_def)

lemma restart_configs:
  assumes "configFile w = Some (metadata_content rt objects)"
    and "json_roundtrip rt (metadata_json objects)"
    and "holds_profiles objects cs"
  shows "configs (restart rt e w)
       = map (hydrated e (secrets w)) (map DbConfig_json (map (\<lambda>c. c\<lparr>password := []\<rparr>) cs))"
proof -
  have "new_ConfigManager rt w
      = w\<lparr>configs := map DbConfig_json (map (\<lambda>c. c\<lparr>password := []\<rparr>) cs)\<rparr>"
    unfolding new_ConfigManager_def
    using loadConfigRaw_metadata [of "w\<lparr>configs := []\<rparr>" rt objects cs] assms by simp
  then show ?thesis
    by (simp only: restart_def init_configs) simp
qed

lemma hydrated_id:
  "js_prop (hydrated e m (DbConfig_json c)) ''id'' = Some (JStr (id' c))"
  by (simp add: hydrated_def DbConfig_json_assign_password DbConfig_json_id split: option.splits)

text \<open>
  C10. \<open>updateConfig\<close> with a profile whose id is in the store (first at \<open>index\<close>) and
  whose password is empty puts the profile at that index, writes the metadata file, and
  issues no call on the keychain: the only new call is the file write and the keychain
  entries are the same. If the keychain holds a non-empty secret under the id, the write
  reached the disk, \<open>JSON.parse\<close> reads the written text back, and the objects of the
  store fit the schema (as they do after every sequence of calls, \<open>run_holds_profiles\<close>),
  then after the next start with a working keychain \<open>getConfig\<close> of the id returns the
  profile with that secret as its password.
\<close>

theorem update_empty_password_keeps_secret:
  assumes idx: "findIndex (\<lambda>c. js_prop c ''id'' = Some (JStr (id' config))) (configs w)
      = Some index"
    and empty: "password config = []"
  shows "configs (updateConfig rt e config w) = (configs w)[index := DbConfig_json config]
     \<and> secrets (updateConfig rt e config w) = secrets w
     \<and> effects (updateConfig rt e config w)
         = effects w @ [WriteFile (metadata_content rt ((configs w)[index := DbConfig_json config]))]
     \<and> (disk_ok e \<and> secrets_ok e' \<and> secrets w (id' config) = Some secret \<and> secret \<noteq> []
          \<and> json_roundtrip rt (metadata_json ((configs w)[index := DbConfig_json config]))
          \<and> holds_profiles (configs w) cs
        \<longrightarrow> getConfig (id' config) (restart rt e' (updateConfig rt e config w))
              = Some (DbConfig_json (config\<lparr>password := secret\<rparr>)))"
proof -
  let ?w' = "updateConfig rt e config w"
  let ?objects = "(configs w)[index := DbConfig_json config]"
  have c: "configs ?w' = ?objects" and s: "secrets ?w' = secrets w"
    and eff: "effects ?w' = effects w @ [WriteFile (metadata_content rt ?objects)]"
    and f: "disk_ok e \<Longrightarrow> configFile ?w' = Some (metadata_content rt ?objects)"
    using idx empty by (simp_all add: updateConfig_def Let_def)
  have "getConfig (id' config) (restart rt e' ?w')
      = Some (DbConfig_json (config\<lparr>password := secret\<rparr>))"
    if ok: "disk_ok e" "secrets_ok e'" "secrets w (id' config) = Some secret" "secret \<noteq> []"
      and rt: "json_roundtrip rt (metadata_json ?objects)"
      and store: "holds_profiles (configs w) cs"
  proof -
    let ?cs = "cs[index := config]"
    let ?h = "\<lambda>c. hydrated e' (secrets w) (DbConfig_json (c\<lparr>password := []\<rparr>))"
    have "configs (restart rt e' ?w') = map ?h ?cs"
      using restart_configs [OF f [OF ok(1)] rt holds_profiles_update [OF store], of e']
      by (simp add: s comp_def)
    moreover have "js_prop (?h c) ''id'' = Some (JStr (id' config)) \<longleftrightarrow> id' c = id' config"
      for c
      by (simp add: hydrated_id)
    moreover have "findIndex (\<lambda>c. id' c = id' config) cs = Some index"
      using idx findIndex_reads [of "configs w" cs "id' config"] store
      by (simp add: holds_profiles_reads)
    then have "find (\<lambda>c. id' c = id' config) ?cs = Some config"
      by (rule find_update_first) simp
    moreover have "?h config = DbConfig_json (config\<lparr>password := secret\<rparr>)"
      using ok by (simp add: hydrated_def DbConfig_json_assign_password DbConfig_json_id string_of_def)
    ultimately show ?thesis
      by (simp add: getConfig_def find_map_comp)
  qed
  with c s eff show ?thesis by blast
qed

theorem update_empty_password_keeps_secret_witness:
  "findIndex (\<lambda>c. js_prop c ''id'' = Some (JStr (id' (profile_a\<lparr>password := []\<rparr>))))
     (configs world_a) = Some 0
   \<and> password (profile_a\<lparr>password := []\<rparr>) = []
   \<and> disk_ok host_up \<and> secrets_ok host_up
   \<and> secrets world_a (id' (profile_a\<lparr>password := []\<rparr>)) = Some ''s3cr3t'' \<and> ''s3cr3t'' \<noteq> []
   \<and> json_roundtrip demo
        (metadata_json ((configs world_a)[0 := DbConfig_json (profile_a\<lparr>password := []\<rparr>)]))
   \<and> holds_profiles (configs world_a) [profile_a]
   \<and> effects (updateConfig demo host_up (profile_a\<lparr>password := []\<rparr>) world_a)
       = [WriteFile ''[a]'']
   \<and> getConfig ''a'' (updateConfig demo host_up (profile_a\<lparr>password := []\<rparr>) world_a)
       = Some (DbConfig_json (profile_a\<lparr>password := []\<rparr>))
   \<and> getConfig ''a'' (restart demo host_up
        (updateConfig demo host_up (profile_a\<lparr>password := []\<rparr>) world_a))
       = Some (DbConfig_json profile_a)"
proof -
  let ?c = "profile_a\<lparr>password := []\<rparr>"
  have i: "findIndex (\<lambda>c. js_prop c ''id'' = Some (JStr (id' ?c))) (configs world_a) = Some 0"
    by (simp add: world_a_def DbConfig_json_id)
  have p: "password ?c = []"
    by simp
  have env: "disk_ok host_up \<and> secrets_ok host_up"
    by (simp add: host_up_def)
  have sec: "secrets world_a (id' ?c) = Some ''s3cr3t''"
    by (simp add: world_a_def profile_a_def)
  have js: "json_roundtrip demo (metadata_json ((configs world_a)[0 := DbConfig_json ?c]))"
    by code_simp
  have store: "holds_profiles (configs world_a) [profile_a]"
    using holds_profiles_json [of "[profile_a]"] by (simp add: world_a_def)
  have text_a: "metadata_content demo ((configs world_a)[0 := DbConfig_json ?c]) = ''[a]''"
    by code_simp
  have after: "getConfig ''a'' (updateConfig demo host_up ?c world_a) = Some (DbConfig_json ?c)"
    by code_simp
  have restored: "?c\<lparr>password := ''s3cr3t''\<rparr> = profile_a"
    by (simp add: profile_a_def)
  have ida: "id' ?c = ''a''"
    by (simp add: profile_a_def)
  have eff0: "effects world_a = []"
    by (simp add: world_a_def)
  show ?thesis
    using i p env sec js store text_a after restored ida eff0
      update_empty_password_keeps_secret [OF i p, of demo host_up host_up "''s3cr3t''" "[profile_a]"]
    by simp
qed

section \<open>The merge of importFromFile\<close>

lemma find_id_None:
  "find (\<lambda>c. js_prop c ''id'' = Some (JStr k)) objects = None \<longleftrightarrow> k \<notin> set (ids objects)"
  by (induction objects) (auto simp: ids_def split: option.splits json.splits)

lemma ids_append_json: "ids (objects @ [DbConfig_json c]) = ids objects @ [id' c]"
  by (simp add: ids_def DbConfig_json_id)

lemma import_loop_count:
  "fst (import_loop e vs n w) = n + length (new_profiles (ids (configs w)) vs)"
proof (induction vs arbitrary: n w)
  case Nil
  show ?case by simp
next
  case (Cons v vs)
  show ?case
  proof (cases "find (\<lambda>c. js_prop c ''id'' = Some (JStr (id' v))) (configs w)")
    case None
    then have "id' v \<notin> set (ids (configs w))"
      using find_id_None [of "id' v" "configs w"] by simp
    with None show ?thesis
      by (simp add: Cons.IH Let_def ids_append_json)
  next
    case (Some existing)
    then have "id' v \<in> set (ids (configs w))"
      using find_id_None [of "id' v" "configs w"] by simp
    with Some show ?thesis
      by (simp add: Cons.IH)
  qed
qed

lemma import_loop_configs:
  "configs (snd (import_loop e vs n w))
     = configs w @ map DbConfig_json (new_profiles (ids (configs w)) vs)"
proof (induction vs arbitrary: n w)
  case Nil
  show ?case by simp
next
  case (Cons v vs)
  show ?case
  proof (cases "find (\<lambda>c. js_prop c ''id'' = Some (JStr (id' v))) (configs w)")
    case None
    then have "id' v \<notin> set (ids (configs w))"
      using find_id_None [of "id' v" "configs w"] by simp
    with None show ?thesis
      by (simp add: Cons.IH Let_def ids_append_json)
  next
    case (Some existing)
    then have "id' v \<in> set (ids (configs w))"
      using find_id_None [of "id' v" "configs w"] by simp
    with Some show ?thesis
      by (simp add: Cons.IH)
  qed
qed

lemma import_loop_configFile:
  "configFile (snd (import_loop e vs n w)) = configFile w"
proof (induction vs arbitrary: n w)
  case Nil
  show ?case by simp
next
  case (Cons v vs)
  show ?case
    by (cases "find (\<lambda>c. js_prop c ''id'' = Some (JStr (id' v))) (configs w)")
      (simp_all add: Cons.IH Let_def)
qed

lemma import_loop_effects:
  "effects (snd (import_loop e vs n w))
     = effects w @ seeded (new_profiles (ids (configs w)) vs)"
proof (induction vs arbitrary: n w)
  case Nil
  show ?case by (simp add: seeded_def)
next
  case (Cons v vs)
  show ?case
  proof (cases "find (\<lambda>c. js_prop c ''id'' = Some (JStr (id' v))) (configs w)")
    case None
    then have "id' v \<notin> set (ids (configs w))"
      using find_id_None [of "id' v" "configs w"] by simp
    with None show ?thesis
      by (simp add: Cons.IH Let_def seeded_def ids_append_json)
  next
    case (Some existing)
    then have "id' v \<in> set (ids (configs w))"
      using find_id_None [of "id' v" "configs w"] by simp
    with Some show ?thesis
      by (simp add: Cons.IH)
  qed
qed

lemma new_profiles_distinct:
  "distinct (map id' vs) \<Longrightarrow> new_profiles seen vs = filter (\<lambda>c. id' c \<notin> set seen) vs"
proof (induction vs arbitrary: seen)
  case Nil
  show ?case by simp
next
  case (Cons v vs)
  then have d: "distinct (map id' vs)" and nv: "id' v \<notin> id' ` set vs"
    by simp_all
  have "filter (\<lambda>c. id' c \<notin> set (seen @ [id' v])) vs = filter (\<lambda>c. id' c \<notin> set seen) vs"
  proof (rule filter_cong [OF refl])
    fix x assume x: "x \<in> set vs"
    have "id' x \<noteq> id' v"
    proof
      assume "id' x = id' v"
      then have "id' v \<in> id' ` set vs" using x by (metis imageI)
      with nv show False by simp
    qed
    then show "(id' x \<notin> set (seen @ [id' v])) = (id' x \<notin> set seen)" by simp
  qed
  then show ?case
    using Cons.IH [OF d] by simp
qed

lemma length_filter_not:
  "length (filter (\<lambda>c. \<not> P c) xs) = length xs - length (filter P xs)"
  using sum_length_filter_compl [of P xs] by simp

lemma import_validated_result:
  "fst (import_validated rt e vs w) = Inr (length (new_profiles (ids (configs w)) vs))"
  "configs (snd (import_validated rt e vs w))
     = configs w @ map DbConfig_json (new_profiles (ids (configs w)) vs)"
  "effects (snd (import_validated rt e vs w))
     = effects w @ seeded (new_profiles (ids (configs w)) vs)
       @ (if new_profiles (ids (configs w)) vs = [] then []
          else [WriteFile (metadata_content rt
                  (configs w @ map DbConfig_json (new_profiles (ids (configs w)) vs)))])"
  "configFile (snd (import_validated rt e vs w))
     = (if new_profiles (ids (configs w)) vs \<noteq> [] \<and> disk_ok e
        then Some (metadata_content rt
               (configs w @ map DbConfig_json (new_profiles (ids (configs w)) vs)))
        else configFile w)"
  using import_loop_count [of e vs 0 w] import_loop_configs [of e vs 0 w]
    import_loop_effects [of e vs 0 w] import_loop_configFile [of e vs 0 w]
  by (auto simp: import_validated_def split_beta Let_def)

text \<open>
  C3, as the code has it. For every import of a file that parses and validates, the
  profiles added are those whose id is neither in the store nor carried by an earlier
  profile of the same file; they are appended in file order after the objects of the
  store, which stay as they are. The keychain is seeded for the added profiles that have
  a password, the metadata file is written once when a profile was added and not at all
  otherwise, and the number of added profiles is returned. When the ids in the file are
  pairwise distinct, the added profiles are exactly those whose id is not in the store,
  and their number is \<open>N - K\<close>.
\<close>

theorem import_adds_new_profiles:
  assumes "parse_fileContent rt fileContent pw = Inr parsed"
    and "connections_of parsed = Inr connections"
    and "ConfigFileSchema_parse connections = Inr validated"
  shows "(let added = new_profiles (ids (configs w)) validated;
              r = importFromFile rt e fileContent pw w
          in fst r = Inr (length added)
             \<and> configs (snd r) = configs w @ map DbConfig_json added
             \<and> effects (snd r) = effects w @ seeded added
                 @ (if added = [] then []
                    else [WriteFile (metadata_content rt (configs w @ map DbConfig_json added))])
             \<and> configFile (snd r)
                 = (if added \<noteq> [] \<and> disk_ok e
                    then Some (metadata_content rt (configs w @ map DbConfig_json added))
                    else configFile w)
             \<and> (distinct (map id' validated) \<longrightarrow>
                  added = filter (\<lambda>c. id' c \<notin> set (ids (configs w))) validated
                  \<and> length added = length validated
                      - length (filter (\<lambda>c. id' c \<in> set (ids (configs w))) validated)))"
proof -
  have r: "importFromFile rt e fileContent pw w = import_validated rt e validated w"
    using assms by (simp add: importFromFile_def)
  have d: "new_profiles (ids (configs w)) validated
        = filter (\<lambda>c. id' c \<notin> set (ids (configs w))) validated
      \<and> length (new_profiles (ids (configs w)) validated) = length validated
          - length (filter (\<lambda>c. id' c \<in> set (ids (configs w))) validated)"
    if "distinct (map id' validated)"
    using new_profiles_distinct [OF that, of "ids (configs w)"]
      length_filter_not [of "\<lambda>c. id' c \<in> set (ids (configs w))" validated]
    by simp
  show ?thesis
    unfolding Let_def r
    using d by (simp only: import_validated_result) blast
qed

theorem import_adds_new_profiles_witness:
  "parse_fileContent demo ''[A,B]'' None = Inr (JArr (map DbConfig_json [profile_a, profile_b]))
   \<and> connections_of (JArr (map DbConfig_json [profile_a, profile_b]))
       = Inr (JArr (map DbConfig_json [profile_a, profile_b]))
   \<and> ConfigFileSchema_parse (JArr (map DbConfig_json [profile_a, profile_b]))
       = Inr [profile_a, profile_b]
   \<and> distinct (map id' [profile_a, profile_b])
   \<and> getConfigs world_a = [DbConfig_json profile_a]
   \<and> fst (importFromFile demo host_up ''[A,B]'' None world_a) = Inr 1
   \<and> configs (snd (importFromFile demo host_up ''[A,B]'' None world_a))
       = [DbConfig_json profile_a, DbConfig_json profile_b]
   \<and> effects (snd (importFromFile demo host_up ''[A,B]'' None world_a))
       = [SetPassword ''b'' ''hunter2'', WriteFile ''[a,b]'']"
proof -
  have h1: "parse_fileContent demo ''[A,B]'' None
      = Inr (JArr (map DbConfig_json [profile_a, profile_b]))"
    by code_simp
  have h2: "connections_of (JArr (map DbConfig_json [profile_a, profile_b]))
      = Inr (JArr (map DbConfig_json [profile_a, profile_b]))"
    by (simp add: connections_of_def get_prop_def)
  have h3: "ConfigFileSchema_parse (JArr (map DbConfig_json [profile_a, profile_b]))
      = Inr [profile_a, profile_b]"
    by (rule ConfigFileSchema_json)
  have d: "distinct (map id' [profile_a, profile_b])"
    by (simp add: profile_a_def profile_b_def)
  have w: "configs world_a = [DbConfig_json profile_a]" "effects world_a = []"
    by (simp_all add: world_a_def)
  have n: "new_profiles (ids [DbConfig_json profile_a]) [profile_a, profile_b] = [profile_b]"
    by (simp add: ids_def DbConfig_json_id profile_a_def profile_b_def)
  have s: "seeded [profile_b] = [SetPassword ''b'' ''hunter2'']"
    by (simp add: seeded_def profile_b_def)
  have m: "metadata_content demo [DbConfig_json profile_a, DbConfig_json profile_b] = ''[a,b]''"
    by code_simp
  have r: "fst (importFromFile demo host_up ''[A,B]'' None world_a) = Inr (length [profile_b])
      \<and> configs (snd (importFromFile demo host_up ''[A,B]'' None world_a))
          = [DbConfig_json profile_a] @ map DbConfig_json [profile_b]
      \<and> effects (snd (importFromFile demo host_up ''[A,B]'' None world_a))
          = [] @ seeded [profile_b]
            @ (if [profile_b] = [] then []
               else [WriteFile (metadata_content demo
                       ([DbConfig_json profile_a] @ map DbConfig_json [profile_b]))])"
    using import_adds_new_profiles [OF h1 h2 h3, of world_a host_up]
    unfolding Let_def w n by blast
  have g: "getConfigs world_a = [DbConfig_json profile_a]"
    by (simp add: getConfigs_def w)
  show ?thesis
    using h1 h2 h3 d g r by (simp add: s m)
qed

text \<open>
  The claim as stated fails on a file that repeats an id: the store is empty, the file
  holds two valid profiles with the id \<open>a\<close>, so \<open>N = 2\<close> and \<open>K = 0\<close>, yet one profile
  is added and the second is dropped.
\<close>

theorem import_repeated_id_counterexample:
  "getConfigs empty_world = []
   \<and> JSON_parse demo ''[A,A2]'' = Inr (JArr [DbConfig_json profile_a, DbConfig_json profile_a2])
   \<and> ConfigFileSchema_parse (JArr [DbConfig_json profile_a, DbConfig_json profile_a2])
       = Inr [profile_a, profile_a2]
   \<and> fst (importFromFile demo host_up ''[A,A2]'' None empty_world) = Inr 1
   \<and> fst (importFromFile demo host_up ''[A,A2]'' None empty_world)
       \<noteq> Inr (length [profile_a, profile_a2] - 0)
   \<and> configs (snd (importFromFile demo host_up ''[A,A2]'' None empty_world))
       = [DbConfig_json profile_a]"
proof -
  have a: "getConfigs empty_world = []"
    by (simp add: getConfigs_def empty_world_def)
  have b: "JSON_parse demo ''[A,A2]''
      = Inr (JArr [DbConfig_json profile_a, DbConfig_json profile_a2])"
    by code_simp
  have c: "ConfigFileSchema_parse (JArr [DbConfig_json profile_a, DbConfig_json profile_a2])
      = Inr [profile_a, profile_a2]"
    using ConfigFileSchema_json [of "[profile_a, profile_a2]"] by simp
  have d: "fst (importFromFile demo host_up ''[A,A2]'' None empty_world) = Inr 1"
    by code_simp
  have e: "configs (snd (importFromFile demo host_up ''[A,A2]'' None empty_world))
      = [DbConfig_json profile_a]"
    by code_simp
  show ?thesis
    using a b c d e by simp
qed

section \<open>Export under a password, then import\<close>

lemma demo_rejects_sealed: "\<forall>s. startsWith s MSG_PREFIX \<longrightarrow> isl (JSON_parse demo s)"
proof (intro allI impI)
  fix s assume "startsWith s MSG_PREFIX"
  then have "s \<notin> fst ` set demo_table"
    by (auto simp: demo_table_def startsWith_def MSG_PREFIX_def)
  then have "map_of demo_table s = None"
    by (simp add: map_of_eq_None_iff)
  then show "isl (JSON_parse demo s)"
    by (simp add: demo_def demo_runtime_def demo_JSON_parse_def)
qed

lemma parsed_password:
  assumes "DbConfigSchema_parse v = Inr c"
  shows "password c = string_of (js_prop v ''password'')"
proof -
  from assms obtain kvs where v: "v = JObj kvs" and ok: "DbConfigSchema_issues (map_of kvs) = []"
    by (rule parsed_object)
  from ok have "z_default z_string [] (map_of kvs ''password'') \<noteq> None"
    by (simp add: DbConfigSchema_issues_def issue_at_Nil)
  then have "the (z_default z_string [] (map_of kvs ''password''))
      = string_of (map_of kvs ''password'')"
    by (auto simp: z_default_def z_string_def string_of_def split: option.splits json.splits)
  with assms v ok show ?thesis
    by (auto simp: DbConfigSchema_parse_def Let_def js_prop_def)
qed

lemma holds_profiles_passwords:
  assumes "holds_profiles objects cs"
  shows "map password cs = map (\<lambda>c. string_of (js_prop c ''password'')) objects"
proof -
  have "list_all2 (\<lambda>v c. DbConfigSchema_parse v = Inr c) objects cs"
    using assms by (simp add: holds_profiles_reads)
  then show ?thesis
    by (induction rule: list_all2_induct) (simp_all add: parsed_password)
qed

lemma sealed_export_import:
  assumes sound: "crypto_sound rt" and iv: "length iv = IV_LEN" and pw: "pw \<noteq> []"
    and utf8: "utf8_decode rt (utf8_encode rt (JSON_stringify rt (exportData now (configs w))))
                = JSON_stringify rt (exportData now (configs w))"
    and json: "json_roundtrip rt (exportData now (configs w))"
    and sealed: "\<forall>s. startsWith s MSG_PREFIX \<longrightarrow> isl (JSON_parse rt s)"
    and store: "holds_profiles (configs w) cs"
  shows "startsWith (exportToFile rt now salt iv (Some pw) False w) MSG_PREFIX"
    and "importFromFile rt e (exportToFile rt now salt iv (Some pw) False w) (Some pw) w'
         = import_validated rt e cs w'"
proof -
  let ?json = "JSON_stringify rt (exportData now (configs w))"
  let ?sealed = "exportToFile rt now salt iv (Some pw) False w"
  have sealed_file: "?sealed = encrypt rt salt iv ?json pw"
    using pw by (simp add: exportToFile_def given_def)
  show pre: "startsWith ?sealed MSG_PREFIX"
    by (simp only: sealed_file encrypt_startsWith)
  then have "isl (JSON_parse rt ?sealed)"
    using sealed by blast
  then obtain msg where nojson: "JSON_parse rt ?sealed = Inl msg"
    by (cases "JSON_parse rt ?sealed") simp_all
  have dec: "decrypt rt ?sealed pw = Inr ?json"
    unfolding sealed_file by (rule decrypt_encrypt [OF sound iv utf8])
  have parsed: "parse_fileContent rt ?sealed (Some pw) = Inr (exportData now (configs w))"
    using nojson pw dec json by (simp add: parse_fileContent_def json_roundtrip_def)
  show "importFromFile rt e ?sealed (Some pw) w' = import_validated rt e cs w'"
    using parsed store
    by (simp add: importFromFile_def connections_of_exportData holds_profiles_def)
qed

text \<open>
  C4, as the code has it. Under a runtime with the guarantees of \<open>crypto_sound\<close>, whose
  \<open>JSON.parse\<close> rejects every text that starts with \<open>ENC:\<close> and reads the serialised
  export object back, for an export text that the utf8 codec recovers, and for a store
  that holds the profiles \<open>cs\<close>: \<open>exportToFile\<close> with a non-empty password and
  \<open>includePlainPasswords = false\<close> gives a content that starts with \<open>ENC:\<close>, and
  \<open>importFromFile\<close> of that content with the same password merges exactly the profiles
  \<open>cs\<close>, whose passwords are those of the objects of the exporting store, into the
  importing store. When the exported ids are pairwise distinct and none of them is in
  the importing store, that store then holds all the exported profiles after its own,
  and their number is returned.
\<close>

theorem export_import_roundtrip:
  assumes sound: "crypto_sound rt" and iv: "length iv = IV_LEN" and pw: "pw \<noteq> []"
    and utf8: "utf8_decode rt (utf8_encode rt (JSON_stringify rt (exportData now (configs w))))
                = JSON_stringify rt (exportData now (configs w))"
    and json: "json_roundtrip rt (exportData now (configs w))"
    and sealed: "\<forall>s. startsWith s MSG_PREFIX \<longrightarrow> isl (JSON_parse rt s)"
    and store: "holds_profiles (configs w) cs"
  shows "startsWith (exportToFile rt now salt iv (Some pw) False w) MSG_PREFIX
     \<and> importFromFile rt e (exportToFile rt now salt iv (Some pw) False w) (Some pw) w'
         = import_validated rt e cs w'
     \<and> map password cs = map (\<lambda>c. string_of (js_prop c ''password'')) (configs w)
     \<and> (distinct (map id' cs) \<and> set (map id' cs) \<inter> set (ids (configs w')) = {} \<longrightarrow>
          fst (importFromFile rt e (exportToFile rt now salt iv (Some pw) False w) (Some pw) w')
            = Inr (length cs)
          \<and> configs (snd (importFromFile rt e (exportToFile rt now salt iv (Some pw) False w)
                (Some pw) w')) = configs w' @ map DbConfig_json cs)"
proof -
  have "new_profiles (ids (configs w')) cs = cs"
    if "distinct (map id' cs)" and "set (map id' cs) \<inter> set (ids (configs w')) = {}"
  proof -
    have "filter (\<lambda>c. id' c \<notin> set (ids (configs w'))) cs = cs"
      using that(2) by (auto simp: filter_id_conv)
    then show ?thesis
      using new_profiles_distinct [OF that(1), of "ids (configs w')"] by simp
  qed
  then show ?thesis
    using sealed_export_import [OF assms] holds_profiles_passwords [OF store]
    by (simp add: import_validated_result)
qed

theorem export_import_roundtrip_witness:
  "crypto_sound demo \<and> length demo_iv = IV_LEN \<and> ''hunter2'' \<noteq> []
   \<and> utf8_decode demo (utf8_encode demo (JSON_stringify demo (exportData demo_now (configs world_ab))))
       = JSON_stringify demo (exportData demo_now (configs world_ab))
   \<and> json_roundtrip demo (exportData demo_now (configs world_ab))
   \<and> isl (JSON_parse demo sealed_ab)
   \<and> holds_profiles (configs world_ab) [profile_a, profile_b]
   \<and> distinct (map id' [profile_a, profile_b])
   \<and> set (map id' [profile_a, profile_b]) \<inter> set (ids (configs empty_world)) = {}
   \<and> startsWith sealed_ab MSG_PREFIX
   \<and> fst (importFromFile demo host_up sealed_ab (Some ''hunter2'') empty_world) = Inr 2
   \<and> configs (snd (importFromFile demo host_up sealed_ab (Some ''hunter2'') empty_world))
       = [DbConfig_json profile_a, DbConfig_json profile_b]
   \<and> map password [profile_a, profile_b] = [''s3cr3t'', ''hunter2'']"
proof -
  have sound: "crypto_sound demo"
    unfolding demo_def by (rule demo_crypto_sound)
  have iv: "length demo_iv = IV_LEN"
    by (simp add: demo_iv_def IV_LEN_def)
  have pw: "''hunter2'' \<noteq> []"
    by simp
  have utf8: "utf8_decode demo (utf8_encode demo
        (JSON_stringify demo (exportData demo_now (configs world_ab))))
      = JSON_stringify demo (exportData demo_now (configs world_ab))"
    unfolding demo_def by (rule demo_utf8)
  have json: "json_roundtrip demo (exportData demo_now (configs world_ab))"
    by code_simp
  have store: "holds_profiles (configs world_ab) [profile_a, profile_b]"
    using holds_profiles_json [of "[profile_a, profile_b]"] by (simp add: world_ab_def)
  have ids_ok: "distinct (map id' [profile_a, profile_b])"
    by (simp add: profile_a_def profile_b_def)
  have target: "set (map id' [profile_a, profile_b]) \<inter> set (ids (configs empty_world)) = {}"
    by (simp add: empty_world_def ids_def)
  have pws: "map password [profile_a, profile_b] = [''s3cr3t'', ''hunter2'']"
    by (simp add: profile_a_def profile_b_def)
  have empty: "configs empty_world = []"
    by (simp add: empty_world_def)
  note r = export_import_roundtrip [OF sound iv pw utf8 json demo_rejects_sealed store,
      of demo_salt host_up empty_world]
  have r1: "startsWith sealed_ab MSG_PREFIX"
    using r by (simp add: sealed_ab_def)
  have r2: "fst (importFromFile demo host_up sealed_ab (Some ''hunter2'') empty_world)
        = Inr (length [profile_a, profile_b])
      \<and> configs (snd (importFromFile demo host_up sealed_ab (Some ''hunter2'') empty_world))
        = configs empty_world @ map DbConfig_json [profile_a, profile_b]"
    using r ids_ok target unfolding sealed_ab_def by blast
  have r0: "isl (JSON_parse demo sealed_ab)"
    using r1 demo_rejects_sealed by blast
  show ?thesis
    using sound iv utf8 json r0 store ids_ok target pws r1 r2
    by (simp add: empty)
qed

text \<open>
  The claim as stated fails in two ways. A store can hold two profiles with one id
  (\<open>addConfig\<close> does not look for the id): sealed and imported into an empty store, one
  of the two comes back. And a store that already holds an exported id keeps its own
  profile: of the two profiles of \<open>world_ab\<close> only \<open>profile_b\<close> is added to a store
  that holds \<open>profile_a2\<close>, whose password stays \<open>other\<close>.
\<close>

theorem export_import_repeated_id_counterexample:
  "configs world_dup = [DbConfig_json profile_a, DbConfig_json profile_a2]
   \<and> startsWith sealed_dup MSG_PREFIX
   \<and> fst (importFromFile demo host_up sealed_dup (Some ''hunter2'') empty_world) = Inr 1
   \<and> configs (snd (importFromFile demo host_up sealed_dup (Some ''hunter2'') empty_world))
       = [DbConfig_json profile_a]
   \<and> configs (snd (importFromFile demo host_up sealed_dup (Some ''hunter2'') empty_world))
       \<noteq> configs world_dup
   \<and> configs world_ab = [DbConfig_json profile_a, DbConfig_json profile_b]
   \<and> fst (importFromFile demo host_up sealed_ab (Some ''hunter2'') world_a2) = Inr 1
   \<and> configs (snd (importFromFile demo host_up sealed_ab (Some ''hunter2'') world_a2))
       = [DbConfig_json profile_a2, DbConfig_json profile_b]
   \<and> password profile_a = ''s3cr3t'' \<and> password profile_a2 = ''other''"
proof -
  have sound: "crypto_sound demo"
    unfolding demo_def by (rule demo_crypto_sound)
  have iv: "length demo_iv = IV_LEN"
    by (simp add: demo_iv_def IV_LEN_def)
  have pw: "''hunter2'' \<noteq> []"
    by simp
  have a: "configs world_dup = [DbConfig_json profile_a, DbConfig_json profile_a2]"
    by code_simp
  have utf8: "utf8_decode demo (utf8_encode demo
        (JSON_stringify demo (exportData demo_now (configs world_dup))))
      = JSON_stringify demo (exportData demo_now (configs world_dup))"
    unfolding demo_def by (rule demo_utf8)
  have json: "json_roundtrip demo (exportData demo_now (configs world_dup))"
    unfolding a by code_simp
  have store: "holds_profiles (configs world_dup) [profile_a, profile_a2]"
    using holds_profiles_json [of "[profile_a, profile_a2]"] by (simp add: a)
  have b: "startsWith sealed_dup MSG_PREFIX"
    unfolding sealed_dup_def
    by (rule sealed_export_import(1) [OF sound iv pw utf8 json demo_rejects_sealed store])
  have dup: "importFromFile demo host_up sealed_dup (Some ''hunter2'') empty_world
      = import_validated demo host_up [profile_a, profile_a2] empty_world"
    unfolding sealed_dup_def
    by (rule sealed_export_import(2) [OF sound iv pw utf8 json demo_rejects_sealed store])
  have c: "fst (import_validated demo host_up [profile_a, profile_a2] empty_world) = Inr 1"
    by code_simp
  have d: "configs (snd (import_validated demo host_up [profile_a, profile_a2] empty_world))
       = [DbConfig_json profile_a]"
    by code_simp
  have f: "configs world_ab = [DbConfig_json profile_a, DbConfig_json profile_b]"
    by (simp add: world_ab_def)
  have utf8': "utf8_decode demo (utf8_encode demo
        (JSON_stringify demo (exportData demo_now (configs world_ab))))
      = JSON_stringify demo (exportData demo_now (configs world_ab))"
    unfolding demo_def by (rule demo_utf8)
  have json': "json_roundtrip demo (exportData demo_now (configs world_ab))"
    unfolding f by code_simp
  have store': "holds_profiles (configs world_ab) [profile_a, profile_b]"
    using holds_profiles_json [of "[profile_a, profile_b]"] by (simp add: f)
  have ab: "importFromFile demo host_up sealed_ab (Some ''hunter2'') world_a2
      = import_validated demo host_up [profile_a, profile_b] world_a2"
    unfolding sealed_ab_def
    by (rule sealed_export_import(2) [OF sound iv pw utf8' json' demo_rejects_sealed store'])
  have g: "fst (import_validated demo host_up [profile_a, profile_b] world_a2) = Inr 1"
    by code_simp
  have h: "configs (snd (import_validated demo host_up [profile_a, profile_b] world_a2))
       = [DbConfig_json profile_a2, DbConfig_json profile_b]"
    by code_simp
  have i: "password profile_a = ''s3cr3t'' \<and> password profile_a2 = ''other''"
    by (simp add: profile_a_def profile_a2_def)
  show ?thesis
    unfolding dup ab using a b c d f g h i by simp
qed

end
